theory Spec2Isabelle
  imports Complex_Main
begin

section \<open>Cluster metrics of a vertex cover (circulo/metrics/cover.py)\<close>

text \<open>
  The module attaches nine metric functions and \<open>external_edges\<close> to igraph's
  \<open>Cover\<close> class. The functions are embedded below as they are written: an
  accumulating \<open>for\<close> loop is a recursion over the list it runs over, an exception is
  the left summand of the result, and a Python float is a value of \<open>pyfloat\<close>.
  Python 3 semantics are taken for \<open>/\<close> (true division, \<open>ZeroDivisionError\<close> on a
  zero divisor). Floating-point rounding is abstracted: a finite float is represented by
  the rational number it stands for; not-a-number and the infinities are kept as values
  of their own, with the comparison behaviour of IEEE floats.
\<close>

subsection \<open>Errors and loops\<close>

datatype error = ZeroDivisionError | IndexError | ValueError

definition bind_err :: "error + 'a \<Rightarrow> ('a \<Rightarrow> error + 'b) \<Rightarrow> error + 'b" where
  "bind_err m f = (case m of Inl e \<Rightarrow> Inl e | Inr x \<Rightarrow> f x)"

text \<open>\<open>xs[i]\<close> for a non-negative index: \<open>IndexError\<close> out of range.\<close>

definition py_index :: "'a list \<Rightarrow> nat \<Rightarrow> error + 'a" where
  "py_index xs i = (if i < length xs then Inr (xs ! i) else Inl IndexError)"

text \<open>\<open>for x in xs: s = f(x, s)\<close>; the first exception leaves the loop.\<close>

fun for_each :: "('a \<Rightarrow> 's \<Rightarrow> error + 's) \<Rightarrow> 'a list \<Rightarrow> 's \<Rightarrow> error + 's" where
  "for_each f [] s = Inr s"
| "for_each f (x # xs) s = bind_err (f x s) (for_each f xs)"

text \<open>\<open>rv = []; for x in xs: rv += [f(x)]; return rv\<close>.\<close>

fun collect :: "('a \<Rightarrow> error + 'b) \<Rightarrow> 'a list \<Rightarrow> error + 'b list" where
  "collect f [] = Inr []"
| "collect f (x # xs) =
     bind_err (f x) (\<lambda>y. bind_err (collect f xs) (\<lambda>ys. Inr (y # ys)))"

subsection \<open>Python floats\<close>

datatype pyfloat = Fin rat | PInf | NInf | NaN

text \<open>\<open>a / b\<close> on Python numbers (\<open>int\<close> or \<open>float\<close> operands, finite).\<close>

definition true_div :: "rat \<Rightarrow> rat \<Rightarrow> error + pyfloat" where
  "true_div a b = (if b = 0 then Inl ZeroDivisionError else Inr (Fin (a / b)))"

text \<open>\<open>a > b\<close> on floats: every comparison with not-a-number is false.\<close>

fun py_gt :: "pyfloat \<Rightarrow> pyfloat \<Rightarrow> bool" where
  "py_gt NaN _ = False"
| "py_gt _ NaN = False"
| "py_gt (Fin a) (Fin b) = (a > b)"
| "py_gt PInf PInf = False"
| "py_gt PInf _ = True"
| "py_gt NInf _ = False"
| "py_gt (Fin a) PInf = False"
| "py_gt (Fin a) NInf = True"

fun py_add :: "pyfloat \<Rightarrow> pyfloat \<Rightarrow> pyfloat" where
  "py_add NaN _ = NaN"
| "py_add _ NaN = NaN"
| "py_add (Fin a) (Fin b) = Fin (a + b)"
| "py_add PInf NInf = NaN"
| "py_add NInf PInf = NaN"
| "py_add PInf _ = PInf"
| "py_add NInf _ = NInf"
| "py_add (Fin a) PInf = PInf"
| "py_add (Fin a) NInf = NInf"

text \<open>
  The builtin \<open>max(xs)\<close>: \<open>ValueError\<close> on an empty list; otherwise the first element
  is kept until a later one compares greater.
\<close>

definition py_max :: "pyfloat list \<Rightarrow> error + pyfloat" where
  "py_max xs = (case xs of [] \<Rightarrow> Inl ValueError
     | x # ys \<Rightarrow> Inr (foldl (\<lambda>m y. if py_gt y m then y else m) x ys))"

subsection \<open>The graph library's view of a graph and a cover\<close>

text \<open>
  The graph and the cover come from igraph, which is not part of this repository. A graph
  is a vertex count, an edge list with endpoints and a directedness flag; a cover is an
  ordered list of clusters over a graph, each cluster a list of vertex indices (the
  spec's data model, section 3, where a cluster is a set: a list without repetition).
\<close>

record edge =
  index :: nat
  source :: nat
  target :: nat

record graph =
  vcount :: nat
  edgelist :: "(nat \<times> nat) list"
  is_directed :: bool

record cover =
  graph :: graph
  clusters :: "nat list list"

text \<open>\<open>graph.es()\<close>: the edges in order, each with its position as identity.\<close>

definition es :: "graph \<Rightarrow> edge list" where
  "es g = map (\<lambda>(i, (s, t)). \<lparr>index = i, source = s, target = t\<rparr>)
            (zip [0..<length (edgelist g)] (edgelist g))"

definition ecount :: "graph \<Rightarrow> nat" where
  "ecount g = length (edgelist g)"

text \<open>
  Modelled from the spec: \<open>graph.degree()\<close>, the per-vertex degree (section 3), every
  edge counting once at each of its endpoints.
\<close>

definition degree :: "graph \<Rightarrow> nat list" where
  "degree g = map (\<lambda>v. length (filter (\<lambda>(s, t). s = v) (edgelist g))
                       + length (filter (\<lambda>(s, t). t = v) (edgelist g)))
                [0..<vcount g]"

text \<open>\<open>len(cover)\<close>.\<close>

definition len_cover :: "cover \<Rightarrow> nat" where
  "len_cover c = length (clusters c)"

text \<open>
  \<open>cover.membership\<close> is igraph's: the membership index, which maps each vertex to the
  list of the cluster ids it belongs to (the spec's sections 2 and 3). The library builds
  it by appending, for each cluster in order and each vertex the cluster lists, the
  cluster id to the vertex's entry; an id is repeated when a cluster lists a vertex more
  than once.
\<close>

definition memb :: "cover \<Rightarrow> nat \<Rightarrow> nat list" where
  "memb c v = concat (map (\<lambda>i. map (\<lambda>_. i) (filter (\<lambda>item. item = v) (clusters c ! i)))
                       [0..<length (clusters c)])"

definition membership :: "cover \<Rightarrow> nat list list" where
  "membership c = map (memb c) [0..<vcount (graph c)]"

text \<open>
  \<open>cover.crossing()\<close> is igraph's, one flag per edge: the library flags an edge iff the
  membership sets of its two endpoints are disjoint, that is, iff no cluster holds both
  endpoints.
\<close>

definition crossing_edge :: "cover \<Rightarrow> edge \<Rightarrow> bool" where
  "crossing_edge c e = (set (memb c (source e)) \<inter> set (memb c (target e)) = {})"

definition crossing :: "cover \<Rightarrow> bool list" where
  "crossing c = map (crossing_edge c) (es (graph c))"

text \<open>Modelled from the spec: \<open>cover.size(i)\<close>, the vertex count of cluster \<open>i\<close>.\<close>

definition size_cl :: "cover \<Rightarrow> nat \<Rightarrow> nat" where
  "size_cl c i = length (clusters c ! i)"

text \<open>
  Modelled from the spec: \<open>cover.subgraph(i)\<close>, the subgraph induced by the vertex set
  of cluster \<open>i\<close> (section 6): its vertices are the distinct vertices of the cluster in
  ascending order, renumbered from 0, and its edges are the edges of the graph with both
  endpoints in the cluster.
\<close>

definition position :: "nat list \<Rightarrow> nat \<Rightarrow> nat" where
  "position vs v = length (takeWhile (\<lambda>x. x \<noteq> v) vs)"

definition subgraph :: "cover \<Rightarrow> nat \<Rightarrow> graph" where
  "subgraph c i =
     (let vs = sort (remdups (clusters c ! i)) in
      \<lparr>vcount = length vs,
       edgelist = map (\<lambda>(s, t). (position vs s, position vs t))
                    (filter (\<lambda>(s, t). s \<in> set vs \<and> t \<in> set vs) (edgelist (graph c))),
       is_directed = is_directed (graph c)\<rparr>)"

text \<open>
  The type invariant of the library's graph: the endpoints of every edge are vertices of
  the graph. The clusters of a cover are sets of vertices: no cluster lists a vertex
  twice.
\<close>

definition wf_graph :: "graph \<Rightarrow> bool" where
  "wf_graph g = list_all (\<lambda>(s, t). s < vcount g \<and> t < vcount g) (edgelist g)"

definition clusters_are_sets :: "cover \<Rightarrow> bool" where
  "clusters_are_sets c = list_all distinct (clusters c)"

subsection \<open>external_edges\<close>

text \<open>\<open>array_of_sets[cluster_id] += [edge]\<close>.\<close>

definition add_edge :: "edge \<Rightarrow> nat \<Rightarrow> edge list list \<Rightarrow> error + edge list list" where
  "add_edge e cluster_id array_of_sets =
     bind_err (py_index array_of_sets cluster_id)
       (\<lambda>old. Inr (array_of_sets[cluster_id := old @ [e]]))"

text \<open>The body of the loop over the crossing edges.\<close>

definition edge_memberships :: "cover \<Rightarrow> edge \<Rightarrow> error + nat list list" where
  "edge_memberships c e =
     bind_err (py_index (membership c) (source e)) (\<lambda>ms.
       if \<not> is_directed (graph c)
       then bind_err (py_index (membership c) (target e)) (\<lambda>mt. Inr ([ms] @ [mt]))
       else Inr [ms])"

definition external_edges_step :: "cover \<Rightarrow> edge \<Rightarrow> edge list list \<Rightarrow> error + edge list list" where
  "external_edges_step c e array_of_sets =
     bind_err (edge_memberships c e) (\<lambda>membership.
       for_each (\<lambda>node_membership. for_each (add_edge e) node_membership)
         membership array_of_sets)"

definition external_edges :: "cover \<Rightarrow> error + edge list list" where
  "external_edges c =
     for_each (external_edges_step c)
       (map snd (filter fst (zip (crossing c) (es (graph c)))))
       (map (\<lambda>v. []) (clusters c))"

text \<open>
  The boundary-edge collection of cluster \<open>i\<close> as the spec's algorithm builds it
  (section 4.1, steps 2 and 3): for each crossing edge collect the membership list of the
  source and, if the graph is undirected, that of the target; for every cluster id in a
  collected list, append the edge to that cluster's collection. \<open>boundary_edges\<close> runs
  it on the edges the library flags; \<open>boundary_edges_by_spec\<close> runs it on the edges of
  the spec's step 1, those whose endpoints do not have identical membership lists.
\<close>

definition collected_memberships :: "cover \<Rightarrow> edge \<Rightarrow> nat list list" where
  "collected_memberships c e =
     (if is_directed (graph c) then [memb c (source e)]
      else [memb c (source e), memb c (target e)])"

definition appended :: "nat \<Rightarrow> edge \<Rightarrow> nat list list \<Rightarrow> edge list" where
  "appended i e ms = map (\<lambda>_. e) (filter (\<lambda>cluster_id. cluster_id = i) (concat ms))"

definition boundary_edges :: "cover \<Rightarrow> nat \<Rightarrow> edge list" where
  "boundary_edges c i =
     concat (map (\<lambda>e. appended i e (collected_memberships c e))
                 (filter (crossing_edge c) (es (graph c))))"

definition crossing_by_spec :: "cover \<Rightarrow> edge \<Rightarrow> bool" where
  "crossing_by_spec c e = (memb c (source e) \<noteq> memb c (target e))"

definition boundary_edges_by_spec :: "cover \<Rightarrow> nat \<Rightarrow> edge list" where
  "boundary_edges_by_spec c i =
     concat (map (\<lambda>e. appended i e (collected_memberships c e))
                 (filter (crossing_by_spec c) (es (graph c))))"

subsection \<open>The ratio metrics\<close>

definition expansion :: "cover \<Rightarrow> error + pyfloat list" where
  "expansion c =
     bind_err (external_edges c) (\<lambda>boundary.
       collect (\<lambda>i.
         let size_i = size_cl c i in
         bind_err (py_index boundary i) (\<lambda>b.
           true_div (1 * of_nat (length b)) (of_nat size_i)))
         [0..<len_cover c])"

definition cut_ratio :: "cover \<Rightarrow> error + pyfloat list" where
  "cut_ratio c =
     bind_err (external_edges c) (\<lambda>boundary.
       collect (\<lambda>i.
         let size_i = int (size_cl c i);
             size_g = int (vcount (graph c)) in
         bind_err (py_index boundary i) (\<lambda>b.
           true_div (1 * of_nat (length b)) (of_int (size_i * (size_g - size_i)))))
         [0..<len_cover c])"

definition conductance :: "cover \<Rightarrow> error + pyfloat list" where
  "conductance c =
     bind_err (external_edges c) (\<lambda>boundary.
       collect (\<lambda>i.
         let int_edges_cnt = int (ecount (subgraph c i)) in
         bind_err (py_index boundary i) (\<lambda>b.
           let ext_edges_cnt = int (length b) in
           true_div (of_int ext_edges_cnt) (of_int (2 * int_edges_cnt + ext_edges_cnt))))
         [0..<len_cover c])"

definition separability :: "cover \<Rightarrow> error + pyfloat list" where
  "separability c =
     bind_err (external_edges c) (\<lambda>boundary.
       collect (\<lambda>i.
         let int_edges_cnt = int (ecount (subgraph c i)) in
         bind_err (py_index boundary i) (\<lambda>b.
           let ext_edges_cnt = int (length b) in
           true_div (1 * of_int int_edges_cnt) (of_int ext_edges_cnt)))
         [0..<len_cover c])"

text \<open>The body of the loop of \<open>normalized_cut\<close>, ending in \<open>rv[i] += ...\<close>.\<close>

definition normalized_cut_step ::
  "cover \<Rightarrow> edge list list \<Rightarrow> nat \<Rightarrow> pyfloat list \<Rightarrow> error + pyfloat list" where
  "normalized_cut_step c boundary i rv =
     (let int_edges_cnt = int (ecount (subgraph c i)) in
      bind_err (py_index boundary i) (\<lambda>b.
        let ext_edges_cnt = int (length b);
            tot_edge_cnt = int (ecount (graph c)) in
        bind_err (py_index rv i) (\<lambda>old.
          bind_err (true_div (of_int ext_edges_cnt)
                      (of_int (2 * (tot_edge_cnt - int_edges_cnt) + ext_edges_cnt)))
            (\<lambda>x. Inr (rv[i := py_add old x])))))"

definition normalized_cut :: "cover \<Rightarrow> error + pyfloat list" where
  "normalized_cut c =
     bind_err (conductance c) (\<lambda>rv.
       bind_err (external_edges c) (\<lambda>boundary.
         for_each (normalized_cut_step c boundary) [0..<len_cover c] rv))"

subsection \<open>The out-degree fractions\<close>

text \<open>
  The three functions start with the same loop, which credits each boundary edge of
  cluster \<open>i\<close> to one vertex: \<open>ext_edge_per_node[node_index] += 1.0\<close> on a list of
  \<open>vcount\<close> zeros.
\<close>

definition credit :: "cover \<Rightarrow> nat \<Rightarrow> edge \<Rightarrow> rat list \<Rightarrow> error + rat list" where
  "credit c i e ext_edge_per_node =
     bind_err (py_index (membership c) (source e)) (\<lambda>ms.
       let node_index = (if i \<in> set ms then source e else target e) in
       bind_err (py_index ext_edge_per_node node_index) (\<lambda>old.
         Inr (ext_edge_per_node[node_index := old + 1])))"

definition ext_edge_per_node :: "cover \<Rightarrow> nat \<Rightarrow> edge list \<Rightarrow> error + rat list" where
  "ext_edge_per_node c i edges =
     for_each (credit c i) edges (replicate (vcount (graph c)) 0)"

text \<open>\<open>pair[0]/pair[1] if pair[1] != 0 else float('nan')\<close> over the zipped lists.\<close>

definition odf_ratios :: "rat list \<Rightarrow> nat list \<Rightarrow> pyfloat list" where
  "odf_ratios ext deg =
     map (\<lambda>pair. if snd pair \<noteq> 0 then Fin (fst pair / of_nat (snd pair)) else NaN)
         (zip ext deg)"

definition maximum_out_degree_fraction :: "cover \<Rightarrow> error + pyfloat list" where
  "maximum_out_degree_fraction c =
     bind_err (external_edges c) (\<lambda>boundary.
       collect (\<lambda>i.
         let degree_per_node = degree (graph c) in
         bind_err (py_index boundary i) (\<lambda>b.
           bind_err (ext_edge_per_node c i b) (\<lambda>ext.
             py_max (odf_ratios ext degree_per_node))))
         [0..<len_cover c])"

text \<open>
  Modelled from the spec: \<open>nansum\<close> (of scipy, absent from src/) sums while ignoring
  not-a-number entries (section 4.2). Its result is a numpy float, whose division does
  not raise on a zero divisor but gives not-a-number or an infinity.
\<close>

definition nansum :: "pyfloat list \<Rightarrow> pyfloat" where
  "nansum xs = foldl py_add (Fin 0) (map (\<lambda>x. if x = NaN then Fin 0 else x) xs)"

fun np_div :: "pyfloat \<Rightarrow> nat \<Rightarrow> pyfloat" where
  "np_div (Fin a) n =
     (if n = 0 then (if a = 0 then NaN else if a > 0 then PInf else NInf)
      else Fin (a / of_nat n))"
| "np_div x n = x"

definition average_out_degree_fraction :: "cover \<Rightarrow> error + pyfloat list" where
  "average_out_degree_fraction c =
     bind_err (external_edges c) (\<lambda>boundary.
       collect (\<lambda>i.
         let degree_per_node = degree (graph c) in
         bind_err (py_index boundary i) (\<lambda>b.
           bind_err (ext_edge_per_node c i b) (\<lambda>ext.
             Inr (np_div (nansum (odf_ratios ext degree_per_node))
                    (vcount (subgraph c i))))))
         [0..<len_cover c])"

text \<open>\<open>pair[0] > pair[1]/2.0\<close> over the zipped lists; \<open>sum\<close> counts the true entries.\<close>

definition flake_flags :: "rat list \<Rightarrow> nat list \<Rightarrow> bool list" where
  "flake_flags ext deg = map (\<lambda>pair. fst pair > of_nat (snd pair) / 2) (zip ext deg)"

definition flake_out_degree_fraction :: "cover \<Rightarrow> error + pyfloat list" where
  "flake_out_degree_fraction c =
     bind_err (external_edges c) (\<lambda>boundary.
       collect (\<lambda>i.
         let degree_per_node = degree (graph c) in
         bind_err (py_index boundary i) (\<lambda>b.
           bind_err (ext_edge_per_node c i b) (\<lambda>ext.
             true_div (of_nat (length (filter id (flake_flags ext degree_per_node))))
               (of_nat (vcount (subgraph c i))))))
         [0..<len_cover c])"

subsection \<open>compute_metrics\<close>

text \<open>
  The cover object carries two caches: \<open>cover.graph.metrics\<close> and \<open>cover.metrics\<close>
  (\<open>None\<close> until computed). The graph's own metrics facility is a module of this
  repository that is absent from src/; it is a parameter \<open>gcm\<close> of the model (what it
  computes for a graph, or the exception it raises), and \<open>median\<close> reads
  \<open>['Degree Statistics']['Median']\<close> off its result.
\<close>

record 'm report =
  Fraction_over_a_Median_Degree :: "pyfloat list"
  Expansion :: "pyfloat list"
  Cut_Ratio :: "pyfloat list"
  Conductance :: "pyfloat list"
  Normalized_Cut :: "pyfloat list"
  Maximum_Out_Degree_Fraction :: "pyfloat list"
  Average_Out_Degree_Fraction :: "pyfloat list"
  Flake_Out_Degree_Fraction :: "pyfloat list"
  Separability :: "pyfloat list"
  Subgraphs :: "'m list"

record 'm cover_obj =
  cover_of :: cover
  graph_metrics :: "'m option"
  metrics :: "'m report option"

text \<open>
  Modelled from the spec: \<open>graph.compute_metrics(refresh=False)\<close> followed by reading
  \<open>graph.metrics\<close>. The report is a cache that only an explicit recomputation replaces
  (section 4.3): it is computed when absent or when a refresh is asked for.
\<close>

definition graph_compute_metrics ::
  "(graph \<Rightarrow> error + 'm) \<Rightarrow> bool \<Rightarrow> graph \<Rightarrow> 'm option \<Rightarrow> error + 'm" where
  "graph_compute_metrics gcm refresh g cached =
     (case cached of
        None \<Rightarrow> gcm g
      | Some m \<Rightarrow> if refresh then gcm g else Inr m)"

text \<open>
  \<open>fomd\<close> returns its list and leaves the graph's report cached. Its second argument
  is never read and is left out.
\<close>

definition fomd ::
  "(graph \<Rightarrow> error + 'm) \<Rightarrow> ('m \<Rightarrow> pyfloat) \<Rightarrow> 'm cover_obj
     \<Rightarrow> error + (pyfloat list \<times> 'm cover_obj)" where
  "fomd gcm median obj =
     bind_err (graph_compute_metrics gcm False (graph (cover_of obj)) (graph_metrics obj))
       (\<lambda>g_metrics.
         let med = median g_metrics in
         bind_err
           (collect (\<lambda>i.
              let sg = subgraph (cover_of obj) i in
              true_div (of_nat (length (filter (\<lambda>v. py_gt (Fin (of_nat v)) med) (degree sg))))
                (of_nat (vcount sg)))
              [0..<len_cover (cover_of obj)])
           (\<lambda>rv. Inr (rv, obj\<lparr>graph_metrics := Some g_metrics\<rparr>)))"

text \<open>
  \<open>compute_metrics\<close> evaluates the entries of the dictionary in the order they are
  written, stores the report and then appends the report of every cluster's subgraph
  (a fresh graph, so nothing is cached for it). The state an exception leaves behind is
  not modelled.
\<close>

definition compute_metrics ::
  "(graph \<Rightarrow> error + 'm) \<Rightarrow> ('m \<Rightarrow> pyfloat) \<Rightarrow> 'm cover_obj \<Rightarrow> error + 'm cover_obj" where
  "compute_metrics gcm median obj =
     bind_err (graph_compute_metrics gcm False (graph (cover_of obj)) (graph_metrics obj))
       (\<lambda>g_metrics.
     bind_err (fomd gcm median (obj\<lparr>graph_metrics := Some g_metrics\<rparr>)) (\<lambda>(fo, obj1).
     let c = cover_of obj1 in
     bind_err (expansion c) (\<lambda>ex.
     bind_err (cut_ratio c) (\<lambda>cr.
     bind_err (conductance c) (\<lambda>co.
     bind_err (normalized_cut c) (\<lambda>nc.
     bind_err (maximum_out_degree_fraction c) (\<lambda>mo.
     bind_err (average_out_degree_fraction c) (\<lambda>ao.
     bind_err (flake_out_degree_fraction c) (\<lambda>fl.
     bind_err (separability c) (\<lambda>se.
     bind_err (collect (\<lambda>i. graph_compute_metrics gcm False (subgraph c i) None)
                 [0..<len_cover c]) (\<lambda>sgs.
     Inr (obj1\<lparr>metrics := Some
       \<lparr>Fraction_over_a_Median_Degree = fo, Expansion = ex, Cut_Ratio = cr,
        Conductance = co, Normalized_Cut = nc, Maximum_Out_Degree_Fraction = mo,
        Average_Out_Degree_Fraction = ao, Flake_Out_Degree_Fraction = fl,
        Separability = se, Subgraphs = sgs\<rparr>\<rparr>))))))))))))"

subsection \<open>Notions used in the properties\<close>

text \<open>An edge whose endpoints index the membership list.\<close>

definition edge_ok :: "cover \<Rightarrow> edge \<Rightarrow> bool" where
  "edge_ok c e = (source e < vcount (graph c) \<and> target e < vcount (graph c))"

text \<open>How often a crossing edge is appended to the collection of cluster \<open>i\<close>.\<close>

definition mult :: "cover \<Rightarrow> nat \<Rightarrow> edge \<Rightarrow> nat" where
  "mult c i e = length (filter (\<lambda>cluster_id. cluster_id = i)
                          (concat (collected_memberships c e)))"

text \<open>The vertex a boundary edge of cluster \<open>i\<close> is credited to, and the counts.\<close>

definition credited :: "cover \<Rightarrow> nat \<Rightarrow> edge \<Rightarrow> nat" where
  "credited c i e = (if i \<in> set (memb c (source e)) then source e else target e)"

definition credits :: "cover \<Rightarrow> nat \<Rightarrow> edge list \<Rightarrow> rat list" where
  "credits c i edges =
     map (\<lambda>v. of_nat (length (filter (\<lambda>e. credited c i e = v) edges))) [0..<vcount (graph c)]"

text \<open>
  The counts the formulas are written in: \<open>ext(i)\<close>, the number of boundary edges of
  cluster \<open>i\<close>; \<open>int(i)\<close>, the edge count of its induced subgraph; and the second term
  of the normalized cut.
\<close>

definition ext_cnt :: "cover \<Rightarrow> nat \<Rightarrow> int" where
  "ext_cnt c i = int (length (boundary_edges c i))"

definition int_cnt :: "cover \<Rightarrow> nat \<Rightarrow> int" where
  "int_cnt c i = int (ecount (subgraph c i))"

definition second_term :: "cover \<Rightarrow> nat \<Rightarrow> error + pyfloat" where
  "second_term c i =
     true_div (of_int (ext_cnt c i))
       (of_int (2 * (int (ecount (graph c)) - int_cnt c i) + ext_cnt c i))"

text \<open>
  The list \<open>fomd\<close> computes from the graph's report, and the report
  \<open>compute_metrics\<close> stores, as functions of the cover and of the graph's report.
\<close>

definition fomd_list :: "('m \<Rightarrow> pyfloat) \<Rightarrow> cover \<Rightarrow> 'm \<Rightarrow> error + pyfloat list" where
  "fomd_list median c g_metrics =
     collect (\<lambda>i.
        let sg = subgraph c i in
        true_div (of_nat (length (filter (\<lambda>v. py_gt (Fin (of_nat v)) (median g_metrics))
                                    (degree sg))))
          (of_nat (vcount sg)))
       [0..<len_cover c]"

definition report_of ::
  "(graph \<Rightarrow> error + 'm) \<Rightarrow> ('m \<Rightarrow> pyfloat) \<Rightarrow> cover \<Rightarrow> 'm \<Rightarrow> error + 'm report" where
  "report_of gcm median c g_metrics =
     bind_err (fomd_list median c g_metrics) (\<lambda>fo.
     bind_err (expansion c) (\<lambda>ex.
     bind_err (cut_ratio c) (\<lambda>cr.
     bind_err (conductance c) (\<lambda>co.
     bind_err (normalized_cut c) (\<lambda>nc.
     bind_err (maximum_out_degree_fraction c) (\<lambda>mo.
     bind_err (average_out_degree_fraction c) (\<lambda>ao.
     bind_err (flake_out_degree_fraction c) (\<lambda>fl.
     bind_err (separability c) (\<lambda>se.
     bind_err (collect (\<lambda>i. gcm (subgraph c i)) [0..<len_cover c]) (\<lambda>sgs.
     Inr \<lparr>Fraction_over_a_Median_Degree = fo, Expansion = ex, Cut_Ratio = cr,
        Conductance = co, Normalized_Cut = nc, Maximum_Out_Degree_Fraction = mo,
        Average_Out_Degree_Fraction = ao, Flake_Out_Degree_Fraction = fl,
        Separability = se, Subgraphs = sgs\<rparr>))))))))))"

text \<open>
  The counts, ratios and results of the out-degree fractions, as functions of the cover.
\<close>

definition cnt :: "cover \<Rightarrow> nat \<Rightarrow> nat \<Rightarrow> nat" where
  "cnt c i v = length (filter (\<lambda>e. credited c i e = v) (boundary_edges c i))"

definition ratio :: "cover \<Rightarrow> nat \<Rightarrow> nat \<Rightarrow> rat" where
  "ratio c i v = (if degree (graph c) ! v \<noteq> 0
                  then of_nat (cnt c i v) / of_nat (degree (graph c) ! v) else 0)"

definition avg_odf :: "cover \<Rightarrow> nat \<Rightarrow> pyfloat" where
  "avg_odf c i = np_div (Fin (sum_list (map (ratio c i) [0..<vcount (graph c)])))
                   (vcount (subgraph c i))"

definition flake_cnt :: "cover \<Rightarrow> nat \<Rightarrow> nat" where
  "flake_cnt c i = length (filter (\<lambda>v. of_nat (cnt c i v) > (of_nat (degree (graph c) ! v) :: rat) / 2)
                      [0..<vcount (graph c)])"

definition flake_odf :: "cover \<Rightarrow> nat \<Rightarrow> pyfloat" where
  "flake_odf c i = Fin (of_nat (flake_cnt c i) / of_nat (vcount (subgraph c i)))"

subsection \<open>Concrete covers\<close>

text \<open>
  The undirected triangle with the overlapping clusters \<open>{0,1}\<close> and \<open>{1,2}\<close>, a single
  isolated vertex as its own cluster, and two disjoint triangles with one cluster each
  (the scenarios of the spec's section 8).
\<close>

definition triangle :: cover where
  "triangle = \<lparr>graph = \<lparr>vcount = 3, edgelist = [(0, 1), (1, 2), (0, 2)], is_directed = False\<rparr>,
               clusters = [[0, 1], [1, 2]]\<rparr>"

definition isolated_vertex :: cover where
  "isolated_vertex = \<lparr>graph = \<lparr>vcount = 1, edgelist = [], is_directed = False\<rparr>,
                      clusters = [[0]]\<rparr>"

definition two_cliques :: cover where
  "two_cliques =
     \<lparr>graph = \<lparr>vcount = 6, edgelist = [(0, 1), (1, 2), (0, 2), (3, 4), (4, 5), (3, 5)],
               is_directed = False\<rparr>,
      clusters = [[0, 1, 2], [3, 4, 5]]\<rparr>"

text \<open>Vertex 0 is isolated and belongs to cluster 0 together with vertex 1.\<close>

definition isolated_member :: cover where
  "isolated_member = \<lparr>graph = \<lparr>vcount = 3, edgelist = [(1, 2)], is_directed = False\<rparr>,
                      clusters = [[0, 1], [2]]\<rparr>"

text \<open>The triangle of the spec with a self-loop at vertex 1 and one at vertex 2.\<close>

definition looped_triangle :: cover where
  "looped_triangle =
     \<lparr>graph = \<lparr>vcount = 3, edgelist = [(0, 1), (1, 2), (0, 2), (1, 1), (2, 2)],
               is_directed = False\<rparr>,
      clusters = [[0, 1], [1, 2]]\<rparr>"

text \<open>The triangle with a single cluster that holds every vertex.\<close>

definition whole_triangle :: cover where
  "whole_triangle =
     \<lparr>graph = \<lparr>vcount = 3, edgelist = [(0, 1), (1, 2), (0, 2)], is_directed = False\<rparr>,
      clusters = [[0, 1, 2]]\<rparr>"

text \<open>Two isolated vertices in a single cluster.\<close>

definition edgeless_pair :: cover where
  "edgeless_pair = \<lparr>graph = \<lparr>vcount = 2, edgelist = [], is_directed = False\<rparr>,
                    clusters = [[0, 1]]\<rparr>"

text \<open>
  An instance of the graph's metrics facility to run \<open>compute_metrics\<close> with: the
  report is the median degree. A cover object before its first \<open>compute_metrics\<close>,
  and the triangle's after it.
\<close>

definition median_degree :: "graph \<Rightarrow> error + pyfloat" where
  "median_degree g =
     (let ds = sort (degree g); n = length ds in
      if n = 0 then Inr NaN
      else if odd n then Inr (Fin (of_nat (ds ! (n div 2))))
      else Inr (Fin ((of_nat (ds ! (n div 2 - 1)) + of_nat (ds ! (n div 2))) / 2)))"

definition fresh :: "cover \<Rightarrow> pyfloat cover_obj" where
  "fresh c = \<lparr>cover_of = c, graph_metrics = None, metrics = None\<rparr>"

definition triangle_done :: "pyfloat cover_obj" where
  "triangle_done =
     \<lparr>cover_of = triangle, graph_metrics = Some (Fin 2),
      metrics = Some
        \<lparr>Fraction_over_a_Median_Degree = [Fin 0, Fin 0],
         Expansion = [Fin (1 / 2), Fin (1 / 2)],
         Cut_Ratio = [Fin (1 / 2), Fin (1 / 2)],
         Conductance = [Fin (1 / 3), Fin (1 / 3)],
         Normalized_Cut = [Fin (8 / 15), Fin (8 / 15)],
         Maximum_Out_Degree_Fraction = [Fin (1 / 2), Fin (1 / 2)],
         Average_Out_Degree_Fraction = [Fin (1 / 4), Fin (1 / 4)],
         Flake_Out_Degree_Fraction = [Fin 0, Fin 0],
         Separability = [Fin 1, Fin 1],
         Subgraphs = [Fin 1, Fin 1]\<rparr>\<rparr>"

text \<open>An isolated vertex and a cover whose single cluster is empty.\<close>

definition empty_cluster :: cover where
  "empty_cluster = \<lparr>graph = \<lparr>vcount = 1, edgelist = [], is_directed = False\<rparr>,
                     clusters = [[]]\<rparr>"

section \<open>Properties\<close>

subsection \<open>The error monad and the loops\<close>

lemma bind_err_Inr [simp]: "bind_err (Inr x) f = f x"
  by (simp add: bind_err_def)

lemma bind_err_Inl [simp]: "bind_err (Inl e) f = Inl e"
  by (simp add: bind_err_def)

lemma for_each_append:
  "for_each f (xs @ ys) s = bind_err (for_each f xs s) (for_each f ys)"
proof (induction xs arbitrary: s)
  case Nil
  show ?case by simp
next
  case (Cons x xs)
  show ?case by (cases "f x s") (simp_all add: Cons.IH)
qed

lemma for_each_concat:
  "for_each (\<lambda>xs. for_each f xs) xss s = for_each f (concat xss) s"
proof (induction xss arbitrary: s)
  case Nil
  show ?case by simp
next
  case (Cons xs xss)
  show ?case by (cases "for_each f xs s") (simp_all add: for_each_append Cons.IH)
qed

lemma bind_err_return: "bind_err m Inr = m"
  by (cases m) simp_all

lemma for_each_single: "for_each f [x] = f x"
proof (rule ext)
  fix s
  show "for_each f [x] s = f x s" by (cases "f x s") simp_all
qed

lemma for_each_cong:
  "(\<And>x s. x \<in> set xs \<Longrightarrow> f x s = g x s) \<Longrightarrow> for_each f xs s = for_each g xs s"
proof (induction xs arbitrary: s)
  case Nil
  show ?case by simp
next
  case (Cons x xs)
  have "f x s = g x s" by (rule Cons.prems) simp
  moreover have "\<And>s'. for_each f xs s' = for_each g xs s'"
    by (rule Cons.IH) (simp add: Cons.prems)
  ultimately show ?case by (cases "g x s") simp_all
qed

lemma collect_cong:
  "(\<And>x. x \<in> set xs \<Longrightarrow> f x = g x) \<Longrightarrow> collect f xs = collect g xs"
  by (induction xs) simp_all

lemma collect_map:
  "(\<And>x. x \<in> set xs \<Longrightarrow> f x = Inr (g x)) \<Longrightarrow> collect f xs = Inr (map g xs)"
  by (induction xs) simp_all

lemma collect_length: "collect f xs = Inr ys \<Longrightarrow> length ys = length xs"
proof (induction xs arbitrary: ys)
  case Nil
  then show ?case by simp
next
  case (Cons x xs)
  then show ?case
    by (cases "f x"; cases "collect f xs") auto
qed

lemma collect_append:
  "collect f (xs @ ys)
     = bind_err (collect f xs) (\<lambda>a. bind_err (collect f ys) (\<lambda>b. Inr (a @ b)))"
proof (induction xs)
  case Nil
  show ?case by (cases "collect f ys") simp_all
next
  case (Cons x xs)
  show ?case
    by (cases "f x"; cases "collect f xs"; cases "collect f ys") (simp_all add: Cons.IH)
qed

lemma collect_nth:
  "collect f xs = Inr ys \<Longrightarrow> i < length xs \<Longrightarrow> f (xs ! i) = Inr (ys ! i)"
proof (induction xs arbitrary: ys i)
  case Nil
  then show ?case by simp
next
  case (Cons x xs)
  then show ?case
    by (cases "f x"; cases "collect f xs"; cases i) auto
qed

text \<open>A loop that updates entry i at step i is a pointwise map.\<close>

lemma for_each_update:
  fixes g :: "nat \<Rightarrow> error + 'b" and h :: "'a \<Rightarrow> 'b \<Rightarrow> 'a"
  defines "step \<equiv> \<lambda>i rv. bind_err (py_index rv i) (\<lambda>old.
                     bind_err (g i) (\<lambda>x. Inr (rv[i := h old x])))"
  assumes "k \<le> length rv"
  shows "for_each step [0..<k] rv
     = bind_err (collect (\<lambda>i. bind_err (g i) (\<lambda>x. Inr (h (rv ! i) x))) [0..<k])
         (\<lambda>ys. Inr (ys @ drop k rv))"
  using assms(2)
proof (induction k)
  case 0
  show ?case by simp
next
  case (Suc k)
  let ?f = "\<lambda>i. bind_err (g i) (\<lambda>x. Inr (h (rv ! i) x))"
  have k: "k < length rv" using Suc.prems by simp
  have IH: "for_each step [0..<k] rv = bind_err (collect ?f [0..<k]) (\<lambda>ys. Inr (ys @ drop k rv))"
    using Suc by simp
  show ?case
  proof (cases "collect ?f [0..<k]")
    case (Inl e)
    then show ?thesis by (simp add: for_each_append collect_append IH)
  next
    case (Inr ys)
    then have len: "length ys = k" by (auto dest: collect_length)
    have idx: "py_index (ys @ drop k rv) k = Inr (rv ! k)"
      using k len by (simp add: py_index_def nth_append)
    have upd: "(ys @ drop k rv)[k := v] = ys @ [v] @ drop (Suc k) rv" for v
      using k len by (simp add: list_update_append Cons_nth_drop_Suc [symmetric])
    have "for_each step [0..<Suc k] rv = bind_err (for_each step [0..<k] rv) (step k)"
      by (simp add: for_each_append for_each_single)
    also have "\<dots> = step k (ys @ drop k rv)"
      by (simp add: IH Inr)
    also have "\<dots> = bind_err (g k) (\<lambda>x. Inr (ys @ [h (rv ! k) x] @ drop (Suc k) rv))"
      by (simp add: step_def idx upd)
    also have "\<dots> = bind_err (collect ?f [0..<Suc k]) (\<lambda>ys. Inr (ys @ drop (Suc k) rv))"
      by (cases "g k") (simp_all add: collect_append Inr)
    finally show ?thesis .
  qed
qed

subsection \<open>The boundary-edge partition\<close>

lemma add_edge_in_range:
  "cid < length arr \<Longrightarrow> add_edge e cid arr = Inr (arr[cid := arr ! cid @ [e]])"
  by (simp add: add_edge_def py_index_def)

lemma for_each_add_edge:
  "\<forall>cid \<in> set ms. cid < length arr \<Longrightarrow>
   for_each (add_edge e) ms arr =
     Inr (map (\<lambda>i. arr ! i @ map (\<lambda>_. e) (filter (\<lambda>cid. cid = i) ms)) [0..<length arr])"
proof (induction ms arbitrary: arr)
  case Nil
  show ?case by (simp add: map_nth)
next
  case (Cons m ms)
  let ?arr = "arr[m := arr ! m @ [e]]"
  from Cons.prems have m: "m < length arr" and rest: "\<forall>cid \<in> set ms. cid < length ?arr"
    by simp_all
  have "for_each (add_edge e) (m # ms) arr = for_each (add_edge e) ms ?arr"
    using m by (simp add: add_edge_in_range)
  also have "\<dots> = Inr (map (\<lambda>i. ?arr ! i @ map (\<lambda>_. e) (filter (\<lambda>cid. cid = i) ms))
                        [0..<length ?arr])"
    by (rule Cons.IH [OF rest])
  also have "map (\<lambda>i. ?arr ! i @ map (\<lambda>_. e) (filter (\<lambda>cid. cid = i) ms)) [0..<length ?arr]
      = map (\<lambda>i. arr ! i @ map (\<lambda>_. e) (filter (\<lambda>cid. cid = i) (m # ms))) [0..<length arr]"
    using m by (auto simp: nth_list_update)
  finally show ?case .
qed

lemma filter_by_flags: "map snd (filter fst (zip (map P xs) xs)) = filter P xs"
  by (induction xs) auto

lemma crossing_edges_eq:
  "map snd (filter fst (zip (crossing c) (es (graph c))))
     = filter (crossing_edge c) (es (graph c))"
  by (simp add: crossing_def filter_by_flags)

lemma memb_iff:
  "i \<in> set (memb c v) \<longleftrightarrow> i < length (clusters c) \<and> v \<in> set (clusters c ! i)"
  by (auto simp: memb_def)

lemma one_occurrence:
  "distinct xs \<Longrightarrow>
   map (\<lambda>_. i) (filter (\<lambda>item. item = v) xs) = (if v \<in> set xs then [i] else [])"
  by (induction xs) auto

lemma concat_singletons: "concat (map (\<lambda>i. if P i then [i] else []) xs) = filter P xs"
  by (induction xs) simp_all

lemma memb_of_sets:
  assumes "clusters_are_sets c"
  shows "memb c v = filter (\<lambda>i. v \<in> set (clusters c ! i)) [0..<length (clusters c)]"
proof -
  have "map (\<lambda>i. map (\<lambda>_. i) (filter (\<lambda>item. item = v) (clusters c ! i)))
            [0..<length (clusters c)]
      = map (\<lambda>i. if v \<in> set (clusters c ! i) then [i] else []) [0..<length (clusters c)]"
  proof (rule map_cong [OF refl])
    fix i
    assume "i \<in> set [0..<length (clusters c)]"
    then have "clusters c ! i \<in> set (clusters c)" by simp
    with assms have "distinct (clusters c ! i)"
      by (simp add: clusters_are_sets_def list_all_iff)
    then show "map (\<lambda>_. i) (filter (\<lambda>item. item = v) (clusters c ! i))
        = (if v \<in> set (clusters c ! i) then [i] else [])"
      by (rule one_occurrence)
  qed
  then show ?thesis by (simp only: memb_def concat_singletons)
qed

lemma distinct_memb: "clusters_are_sets c \<Longrightarrow> distinct (memb c v)"
  by (simp add: memb_of_sets)

lemma membership_index:
  "v < vcount (graph c) \<Longrightarrow> py_index (membership c) v = Inr (memb c v)"
  by (simp add: py_index_def membership_def)

lemma edge_memberships_ok:
  "edge_ok c e \<Longrightarrow> edge_memberships c e = Inr (collected_memberships c e)"
  by (simp add: edge_ok_def edge_memberships_def collected_memberships_def membership_index)

lemma collected_less:
  "cid \<in> set (concat (collected_memberships c e)) \<Longrightarrow> cid < length (clusters c)"
  by (auto simp: collected_memberships_def memb_iff split: if_splits)

lemma external_edges_step_ok:
  assumes "edge_ok c e" and "length arr = length (clusters c)"
  shows "external_edges_step c e arr =
     Inr (map (\<lambda>i. arr ! i @ appended i e (collected_memberships c e)) [0..<length arr])"
proof -
  have "\<forall>cid \<in> set (concat (collected_memberships c e)). cid < length arr"
    using assms(2) collected_less by auto
  then show ?thesis
    using assms(1)
    by (simp add: external_edges_step_def edge_memberships_ok for_each_concat
        for_each_add_edge appended_def)
qed

lemma external_edges_loop:
  assumes "\<forall>e \<in> set edges. edge_ok c e" and "length arr = length (clusters c)"
  shows "for_each (external_edges_step c) edges arr =
     Inr (map (\<lambda>i. arr ! i @ concat (map (\<lambda>e. appended i e (collected_memberships c e)) edges))
            [0..<length arr])"
  using assms
proof (induction edges arbitrary: arr)
  case Nil
  show ?case by (simp add: map_nth)
next
  case (Cons e edges)
  let ?arr = "map (\<lambda>i. arr ! i @ appended i e (collected_memberships c e)) [0..<length arr]"
  have len: "length ?arr = length (clusters c)" using Cons.prems(2) by simp
  have "for_each (external_edges_step c) (e # edges) arr
      = for_each (external_edges_step c) edges ?arr"
    using Cons.prems by (simp add: external_edges_step_ok)
  also have "\<dots> = Inr (map (\<lambda>i. ?arr ! i
                 @ concat (map (\<lambda>e. appended i e (collected_memberships c e)) edges))
            [0..<length ?arr])"
    using Cons.prems(1) by (intro Cons.IH [OF _ len]) simp
  also have "map (\<lambda>i. ?arr ! i @ concat (map (\<lambda>e. appended i e (collected_memberships c e)) edges))
            [0..<length ?arr]
     = map (\<lambda>i. arr ! i @ concat (map (\<lambda>e. appended i e (collected_memberships c e)) (e # edges)))
            [0..<length arr]"
    by simp
  finally show ?case .
qed

lemma es_edge_ok:
  assumes wf: "wf_graph (graph c)" and e: "e \<in> set (es (graph c))"
  shows "edge_ok c e"
proof -
  from e obtain i s t where
    z: "(i, (s, t)) \<in> set (zip [0..<length (edgelist (graph c))] (edgelist (graph c)))"
    and eq: "e = \<lparr>index = i, source = s, target = t\<rparr>"
    by (auto simp: es_def)
  from z have "(s, t) \<in> set (edgelist (graph c))" by (rule set_zip_rightD)
  with wf have "s < vcount (graph c) \<and> t < vcount (graph c)"
    by (auto simp: wf_graph_def list_all_iff)
  with eq show ?thesis by (simp add: edge_ok_def)
qed

lemma external_edges_eq:
  assumes "wf_graph (graph c)"
  shows "external_edges c = Inr (map (boundary_edges c) [0..<len_cover c])"
proof -
  have ok: "\<forall>e \<in> set (filter (crossing_edge c) (es (graph c))). edge_ok c e"
    using assms es_edge_ok by simp
  show ?thesis
    unfolding external_edges_def crossing_edges_eq
    by (subst external_edges_loop [OF ok]) (simp_all add: boundary_edges_def len_cover_def)
qed

text \<open>
  Claim C1, as amended. On a graph whose edges join vertices of the graph,
  \<open>external_edges\<close> returns one collection per cluster; the collection of cluster \<open>i\<close>
  holds the crossing edges in order, a crossing edge being one the library flags (the
  membership sets of its endpoints are disjoint), each appended once for every
  occurrence of \<open>i\<close> in the membership list of its source and, only if the graph is
  undirected, in that of its target.
\<close>

theorem external_edges_refines_spec:
  assumes "wf_graph (graph c)"
  shows "external_edges c = Inr (map (boundary_edges c) [0..<len_cover c])"
  using assms by (rule external_edges_eq)

theorem external_edges_refines_spec_witness:
  "wf_graph (graph triangle)
   \<and> external_edges triangle = Inr (map (boundary_edges triangle) [0..<len_cover triangle])
   \<and> map (boundary_edges triangle) [0..<len_cover triangle]
       = [[\<lparr>index = 2, source = 0, target = 2\<rparr>], [\<lparr>index = 2, source = 0, target = 2\<rparr>]]"
proof -
  have wf: "wf_graph (graph triangle)"
    by (simp add: triangle_def wf_graph_def)
  have val: "map (boundary_edges triangle) [0..<len_cover triangle]
       = [[\<lparr>index = 2, source = 0, target = 2\<rparr>], [\<lparr>index = 2, source = 0, target = 2\<rparr>]]"
    by code_simp
  from wf external_edges_refines_spec [OF wf] val show ?thesis by simp
qed

text \<open>
  The claim as stated fails on the spec's triangle with the clusters \<open>{0,1}\<close> and
  \<open>{1,2}\<close>: the endpoints of the edge (0,1) have the membership lists \<open>[0]\<close> and
  \<open>[0,1]\<close>, which are not identical, but the edge is not flagged, since cluster 0
  holds both endpoints. Only the edge (0,2) is flagged, and each cluster gets that one
  edge, where the algorithm run on the edges with non-identical lists gives four entries
  to each cluster.
\<close>

theorem crossing_by_identity_counterexample:
  "crossing_by_spec triangle \<lparr>index = 0, source = 0, target = 1\<rparr>
   \<and> crossing triangle = [False, False, True]
   \<and> external_edges triangle
       = Inr [[\<lparr>index = 2, source = 0, target = 2\<rparr>], [\<lparr>index = 2, source = 0, target = 2\<rparr>]]
   \<and> map (boundary_edges_by_spec triangle) [0..<len_cover triangle]
       = [[\<lparr>index = 0, source = 0, target = 1\<rparr>, \<lparr>index = 0, source = 0, target = 1\<rparr>,
           \<lparr>index = 1, source = 1, target = 2\<rparr>, \<lparr>index = 2, source = 0, target = 2\<rparr>],
          [\<lparr>index = 0, source = 0, target = 1\<rparr>, \<lparr>index = 1, source = 1, target = 2\<rparr>,
           \<lparr>index = 1, source = 1, target = 2\<rparr>, \<lparr>index = 2, source = 0, target = 2\<rparr>]]
   \<and> external_edges triangle
       \<noteq> Inr (map (boundary_edges_by_spec triangle) [0..<len_cover triangle])"
  by code_simp

lemma length_filter_distinct:
  "distinct xs \<Longrightarrow> length (filter (\<lambda>x. x = i) xs) = (if i \<in> set xs then 1 else 0)"
  by (induction xs) auto

lemma appended_replicate:
  "appended i e (collected_memberships c e) = replicate (mult c i e) e"
  by (simp add: appended_def mult_def map_replicate_const)

lemma boundary_edges_replicate:
  "boundary_edges c i
     = concat (map (\<lambda>e. replicate (mult c i e) e) (filter (crossing_edge c) (es (graph c))))"
  by (simp add: boundary_edges_def appended_replicate)

lemma mult_pos:
  "0 < mult c i e \<longleftrightarrow>
     i \<in> set (memb c (source e)) \<or> (\<not> is_directed (graph c) \<and> i \<in> set (memb c (target e)))"
proof -
  have "0 < mult c i e \<longleftrightarrow> i \<in> set (concat (collected_memberships c e))"
    unfolding mult_def length_greater_0_conv by (auto simp: filter_empty_conv)
  then show ?thesis by (auto simp: collected_memberships_def)
qed

lemma mult_le_one:
  assumes "clusters_are_sets c" and "crossing_edge c e"
  shows "mult c i e \<le> 1"
proof -
  have s: "length (filter (\<lambda>x. x = i) (memb c (source e)))
      = (if i \<in> set (memb c (source e)) then 1 else 0)"
    using assms(1) by (intro length_filter_distinct distinct_memb)
  have t: "length (filter (\<lambda>x. x = i) (memb c (target e)))
      = (if i \<in> set (memb c (target e)) then 1 else 0)"
    using assms(1) by (intro length_filter_distinct distinct_memb)
  have "\<not> (i \<in> set (memb c (source e)) \<and> i \<in> set (memb c (target e)))"
    using assms(2) by (auto simp: crossing_edge_def)
  then show ?thesis
    by (auto simp: mult_def collected_memberships_def s t)
qed

lemma length_concat_replicate_le_on:
  "(\<And>x. x \<in> set xs \<Longrightarrow> m x \<le> k) \<Longrightarrow>
   length (concat (map (\<lambda>x. replicate (m x) x) xs)) \<le> k * length xs"
proof (induction xs)
  case Nil
  show ?case by simp
next
  case (Cons x xs)
  have "m x \<le> k" by (rule Cons.prems) simp
  moreover have "length (concat (map (\<lambda>x. replicate (m x) x) xs)) \<le> k * length xs"
    by (rule Cons.IH) (simp add: Cons.prems)
  ultimately show ?case by simp
qed

lemma length_es: "length (es g) = ecount g"
  by (simp add: es_def ecount_def)

lemma length_boundary_edges:
  assumes "clusters_are_sets c"
  shows "length (boundary_edges c i) \<le> ecount (graph c)"
proof -
  have "length (boundary_edges c i) \<le> 1 * length (filter (crossing_edge c) (es (graph c)))"
    unfolding boundary_edges_replicate
    by (rule length_concat_replicate_le_on) (simp add: mult_le_one [OF assms] del: One_nat_def)
  also have "\<dots> \<le> length (es (graph c))"
    by simp
  finally show ?thesis by (simp only: length_es)
qed

lemma map_index_es: "map index (es g) = [0..<length (edgelist g)]"
  by (rule nth_equalityI) (simp_all add: es_def case_prod_beta)

lemma distinct_es: "distinct (es g)"
proof -
  have "distinct (map index (es g))" by (simp add: map_index_es)
  then show ?thesis by (simp add: distinct_map)
qed

lemma distinct_concat_replicate:
  "distinct xs \<Longrightarrow> (\<And>x. x \<in> set xs \<Longrightarrow> m x \<le> 1) \<Longrightarrow>
   distinct (concat (map (\<lambda>x. replicate (m x) x) xs))"
proof (induction xs)
  case Nil
  show ?case by simp
next
  case (Cons x xs)
  have rest: "distinct (concat (map (\<lambda>x. replicate (m x) x) xs))"
    using Cons.prems by (intro Cons.IH) simp_all
  have "m x \<le> 1" by (rule Cons.prems) simp
  then have "m x = 0 \<or> m x = 1" by arith
  moreover have "x \<notin> set (concat (map (\<lambda>x. replicate (m x) x) xs))"
    using Cons.prems(1) by auto
  ultimately show ?case using rest by auto
qed

lemma distinct_boundary_edges:
  assumes "clusters_are_sets c"
  shows "distinct (boundary_edges c i)"
  unfolding boundary_edges_replicate
  by (rule distinct_concat_replicate)
     (simp_all add: distinct_es mult_le_one [OF assms] del: One_nat_def)

lemma boundary_edges_member:
  "e \<in> set (boundary_edges c i) \<longleftrightarrow>
     e \<in> set (es (graph c)) \<and> crossing_edge c e \<and> 0 < mult c i e"
  by (auto simp: boundary_edges_replicate)

lemma boundary_edge_no_loop:
  assumes "e \<in> set (boundary_edges c i)"
  shows "source e \<noteq> target e"
proof
  assume loop: "source e = target e"
  from assms have cr: "crossing_edge c e" and m: "0 < mult c i e"
    by (simp_all add: boundary_edges_member)
  from m loop have "i \<in> set (memb c (source e))"
    by (auto simp: mult_pos)
  with cr loop show False by (auto simp: crossing_edge_def)
qed

text \<open>
  Claim C2. For a cover whose clusters are sets of vertices, over a graph with \<open>E\<close>
  edges, the collection of boundary edges \<open>external_edges\<close> returns for cluster \<open>i\<close>
  has at most \<open>E\<close> entries, no edge occurs in it more than once, and no self-loop
  occurs in it.
\<close>

theorem boundary_edges_at_most_E:
  assumes "wf_graph (graph c)" and "clusters_are_sets c" and "i < len_cover c"
  shows "\<exists>bs. external_edges c = Inr bs \<and> length bs = len_cover c
     \<and> length (bs ! i) \<le> ecount (graph c)
     \<and> distinct (bs ! i)
     \<and> (\<forall>e \<in> set (bs ! i). source e \<noteq> target e)"
proof -
  have "\<forall>e \<in> set (boundary_edges c i). source e \<noteq> target e"
    using boundary_edge_no_loop by blast
  then show ?thesis
    using assms length_boundary_edges [of c i] distinct_boundary_edges [of c i]
    by (simp add: external_edges_eq)
qed

theorem boundary_edges_at_most_E_witness:
  "wf_graph (graph looped_triangle) \<and> clusters_are_sets looped_triangle
   \<and> 0 < len_cover looped_triangle
   \<and> (\<exists>bs. external_edges looped_triangle = Inr bs
        \<and> bs ! 0 = [\<lparr>index = 2, source = 0, target = 2\<rparr>]
        \<and> length (bs ! 0) \<le> ecount (graph looped_triangle)
        \<and> distinct (bs ! 0)
        \<and> source \<lparr>index = 2, source = 0, target = 2\<rparr> \<noteq> target \<lparr>index = 2, source = 0, target = 2\<rparr>)"
proof -
  have wf: "wf_graph (graph looped_triangle)"
    by (simp add: looped_triangle_def wf_graph_def)
  have sets: "clusters_are_sets looped_triangle"
    by (simp add: looped_triangle_def clusters_are_sets_def)
  have i: "0 < len_cover looped_triangle"
    by (simp add: looped_triangle_def len_cover_def)
  have ev: "external_edges looped_triangle
     = Inr [[\<lparr>index = 2, source = 0, target = 2\<rparr>], [\<lparr>index = 2, source = 0, target = 2\<rparr>]]"
    by code_simp
  from boundary_edges_at_most_E [OF wf sets i] obtain bs where
    bs: "external_edges looped_triangle = Inr bs"
    and len: "length (bs ! 0) \<le> ecount (graph looped_triangle)"
    and dist: "distinct (bs ! 0)"
    and loops: "\<forall>e \<in> set (bs ! 0). source e \<noteq> target e"
    by blast
  from bs ev have eq: "bs ! 0 = [\<lparr>index = 2, source = 0, target = 2\<rparr>]"
    by auto
  have "source \<lparr>index = 2, source = 0, target = 2\<rparr> \<noteq> target \<lparr>index = 2, source = 0, target = 2\<rparr>"
    using loops eq by simp
  with wf sets i bs eq len dist show ?thesis by blast
qed

subsection \<open>Crediting boundary edges to vertices\<close>

lemma credited_less: "edge_ok c e \<Longrightarrow> credited c i e < vcount (graph c)"
  by (simp add: edge_ok_def credited_def)

lemma credit_ok:
  assumes "edge_ok c e" and "length ext = vcount (graph c)"
  shows "credit c i e ext = Inr (ext[credited c i e := ext ! credited c i e + 1])"
proof -
  have "source e < vcount (graph c)" using assms(1) by (simp add: edge_ok_def)
  then have "credit c i e ext
      = bind_err (py_index ext (credited c i e)) (\<lambda>old. Inr (ext[credited c i e := old + 1]))"
    by (simp add: credit_def membership_index credited_def Let_def)
  moreover have "credited c i e < length ext"
    using assms by (simp add: credited_less)
  ultimately show ?thesis
    by (simp add: py_index_def)
qed

lemma for_each_credit:
  assumes "\<forall>e \<in> set edges. edge_ok c e" and "length ext = vcount (graph c)"
  shows "for_each (credit c i) edges ext =
     Inr (map (\<lambda>v. ext ! v + of_nat (length (filter (\<lambda>e. credited c i e = v) edges)))
            [0..<length ext])"
  using assms
proof (induction edges arbitrary: ext)
  case Nil
  show ?case by (simp add: map_nth)
next
  case (Cons e edges)
  let ?v = "credited c i e"
  let ?ext = "ext[?v := ext ! ?v + 1]"
  have ok: "edge_ok c e" and rest: "\<forall>e \<in> set edges. edge_ok c e"
    using Cons.prems(1) by simp_all
  have len: "length ?ext = vcount (graph c)" using Cons.prems(2) by simp
  have v: "?v < length ext" using ok Cons.prems(2) by (simp add: credited_less)
  have "for_each (credit c i) (e # edges) ext = for_each (credit c i) edges ?ext"
    using ok Cons.prems(2) by (simp add: credit_ok)
  also have "\<dots> = Inr (map (\<lambda>v. ?ext ! v + of_nat (length (filter (\<lambda>e. credited c i e = v) edges)))
            [0..<length ?ext])"
    by (rule Cons.IH [OF rest len])
  also have "map (\<lambda>v. ?ext ! v + of_nat (length (filter (\<lambda>e. credited c i e = v) edges)))
            [0..<length ?ext]
      = map (\<lambda>v. ext ! v + of_nat (length (filter (\<lambda>e. credited c i e = v) (e # edges))))
            [0..<length ext]"
    using v by (auto simp: nth_list_update)
  finally show ?case .
qed

lemma ext_edge_per_node_eq:
  assumes "\<forall>e \<in> set edges. edge_ok c e"
  shows "ext_edge_per_node c i edges = Inr (credits c i edges)"
  unfolding ext_edge_per_node_def
  by (subst for_each_credit [OF assms]) (simp_all add: credits_def)

lemma boundary_edges_ok:
  "wf_graph (graph c) \<Longrightarrow> \<forall>e \<in> set (boundary_edges c i). edge_ok c e"
  by (simp add: boundary_edges_member es_edge_ok)

lemma boundary_endpoint_member:
  "e \<in> set (boundary_edges c i) \<Longrightarrow>
     i \<in> set (memb c (source e)) \<or> i \<in> set (memb c (target e))"
  by (auto simp: boundary_edges_member mult_pos)

lemma credited_member:
  "e \<in> set (boundary_edges c i) \<Longrightarrow> i \<in> set (memb c (credited c i e))"
  using boundary_endpoint_member [of e c i] by (auto simp: credited_def)

lemma credits_outside:
  assumes "v < vcount (graph c)" and "v \<notin> set (clusters c ! i)"
  shows "credits c i (boundary_edges c i) ! v = 0"
proof -
  have "filter (\<lambda>e. credited c i e = v) (boundary_edges c i) = []"
  proof (rule ccontr)
    assume "filter (\<lambda>e. credited c i e = v) (boundary_edges c i) \<noteq> []"
    then obtain e where "e \<in> set (boundary_edges c i)" and "credited c i e = v"
      by (auto simp: filter_empty_conv)
    then have "i \<in> set (memb c v)" using credited_member by blast
    with assms(2) show False by (simp add: memb_iff)
  qed
  with assms(1) show ?thesis by (simp add: credits_def)
qed

text \<open>
  Claim C10. Every edge in the boundary-edge collection of cluster \<open>i\<close> has an endpoint
  whose membership list contains \<open>i\<close>; the loop shared by the three out-degree-fraction
  functions credits it to a member of cluster \<open>i\<close> (the source if it is a member,
  otherwise the target); and the count it leaves for a vertex outside the cluster is 0.
\<close>

theorem credit_goes_to_members:
  assumes "wf_graph (graph c)" and "i < len_cover c"
  shows "\<exists>bs ext. external_edges c = Inr bs \<and> ext_edge_per_node c i (bs ! i) = Inr ext
     \<and> length ext = vcount (graph c)
     \<and> (\<forall>e \<in> set (bs ! i). i \<in> set (memb c (source e)) \<or> i \<in> set (memb c (target e)))
     \<and> (\<forall>e \<in> set (bs ! i). credited c i e \<in> set (clusters c ! i))
     \<and> (\<forall>v < vcount (graph c). v \<notin> set (clusters c ! i) \<longrightarrow> ext ! v = 0)"
proof -
  let ?b = "boundary_edges c i"
  have bs: "external_edges c = Inr (map (boundary_edges c) [0..<len_cover c])"
    using assms(1) by (rule external_edges_eq)
  have nth: "map (boundary_edges c) [0..<len_cover c] ! i = ?b"
    using assms(2) by simp
  have ext: "ext_edge_per_node c i ?b = Inr (credits c i ?b)"
    using assms(1) by (intro ext_edge_per_node_eq boundary_edges_ok)
  have len: "length (credits c i ?b) = vcount (graph c)"
    by (simp add: credits_def)
  have ends: "\<forall>e \<in> set ?b. i \<in> set (memb c (source e)) \<or> i \<in> set (memb c (target e))"
    using boundary_endpoint_member by blast
  have cred: "\<forall>e \<in> set ?b. credited c i e \<in> set (clusters c ! i)"
    using credited_member by (auto simp: memb_iff)
  have out: "\<forall>v < vcount (graph c). v \<notin> set (clusters c ! i) \<longrightarrow> credits c i ?b ! v = 0"
    using credits_outside by blast
  from bs nth ext len ends cred out show ?thesis by (metis (no_types, lifting))
qed

theorem credit_goes_to_members_witness:
  "wf_graph (graph triangle) \<and> 0 < len_cover triangle
   \<and> (\<exists>bs ext. external_edges triangle = Inr bs
        \<and> ext_edge_per_node triangle 0 (bs ! 0) = Inr ext
        \<and> \<lparr>index = 2, source = 0, target = 2\<rparr> \<in> set (bs ! 0)
        \<and> credited triangle 0 \<lparr>index = 2, source = 0, target = 2\<rparr>
              \<in> set (clusters triangle ! 0)
        \<and> 2 < vcount (graph triangle) \<and> 2 \<notin> set (clusters triangle ! 0) \<and> ext ! 2 = 0)"
proof -
  have wf: "wf_graph (graph triangle)"
    by (simp add: triangle_def wf_graph_def)
  have i: "0 < len_cover triangle"
    by (simp add: triangle_def len_cover_def)
  have ev: "external_edges triangle
     = Inr [[\<lparr>index = 2, source = 0, target = 2\<rparr>], [\<lparr>index = 2, source = 0, target = 2\<rparr>]]"
    by code_simp
  have v: "2 < vcount (graph triangle)" "2 \<notin> set (clusters triangle ! 0)"
    by (simp_all add: triangle_def)
  from credit_goes_to_members [OF wf i] obtain bs ext where
    bs: "external_edges triangle = Inr bs"
    and ext: "ext_edge_per_node triangle 0 (bs ! 0) = Inr ext"
    and cred: "\<forall>e \<in> set (bs ! 0). credited triangle 0 e \<in> set (clusters triangle ! 0)"
    and out: "\<forall>v < vcount (graph triangle). v \<notin> set (clusters triangle ! 0) \<longrightarrow> ext ! v = 0"
    by blast
  from bs ev have mem: "\<lparr>index = 2, source = 0, target = 2\<rparr> \<in> set (bs ! 0)"
    by auto
  with cred have "credited triangle 0 \<lparr>index = 2, source = 0, target = 2\<rparr>
      \<in> set (clusters triangle ! 0)"
    by blast
  moreover from out v have "ext ! 2 = 0" by blast
  ultimately show ?thesis using wf i bs ext mem v by blast
qed

subsection \<open>Conductance, separability and the normalized cut\<close>

lemma external_index:
  "wf_graph (graph c) \<Longrightarrow> i < len_cover c \<Longrightarrow>
   bind_err (external_edges c) (\<lambda>bs. py_index bs i) = Inr (boundary_edges c i)"
  by (simp add: external_edges_eq py_index_def)

lemma conductance_eq:
  assumes "wf_graph (graph c)"
  shows "conductance c =
     collect (\<lambda>i. true_div (of_int (ext_cnt c i)) (of_int (2 * int_cnt c i + ext_cnt c i)))
       [0..<len_cover c]"
  unfolding conductance_def
  by (simp add: external_edges_eq [OF assms])
     (rule collect_cong, simp add: py_index_def ext_cnt_def int_cnt_def)

lemma normalized_cut_eq:
  assumes "wf_graph (graph c)"
  shows "normalized_cut c =
     bind_err (conductance c) (\<lambda>cd.
       collect (\<lambda>i. bind_err (second_term c i) (\<lambda>x. Inr (py_add (cd ! i) x)))
         [0..<len_cover c])"
proof (cases "conductance c")
  case (Inl e)
  then show ?thesis by (simp add: normalized_cut_def)
next
  case (Inr cd)
  let ?bs = "map (boundary_edges c) [0..<len_cover c]"
  let ?step = "\<lambda>i rv. bind_err (py_index rv i) (\<lambda>old.
                     bind_err (second_term c i) (\<lambda>x. Inr (rv[i := py_add old x])))"
  have len: "length cd = len_cover c"
    using Inr assms by (auto simp: conductance_eq dest: collect_length)
  have "normalized_cut c = for_each (normalized_cut_step c ?bs) [0..<len_cover c] cd"
    by (simp add: normalized_cut_def Inr external_edges_eq [OF assms])
  also have "\<dots> = for_each ?step [0..<len_cover c] cd"
    by (rule for_each_cong)
       (simp add: normalized_cut_step_def py_index_def second_term_def ext_cnt_def
          int_cnt_def Let_def)
  also have "\<dots> = bind_err (collect (\<lambda>i. bind_err (second_term c i)
                         (\<lambda>x. Inr (py_add (cd ! i) x))) [0..<len_cover c])
         (\<lambda>ys. Inr (ys @ drop (len_cover c) cd))"
    by (rule for_each_update) (simp add: len)
  also have "\<dots> = collect (\<lambda>i. bind_err (second_term c i)
                         (\<lambda>x. Inr (py_add (cd ! i) x))) [0..<len_cover c]"
    by (cases "collect (\<lambda>i. bind_err (second_term c i)
                         (\<lambda>x. Inr (py_add (cd ! i) x))) [0..<len_cover c]")
       (simp_all add: len)
  finally show ?thesis by (simp add: Inr)
qed

lemma conductance_nth:
  assumes "wf_graph (graph c)" and "conductance c = Inr cd" and "i < len_cover c"
  shows "cd ! i = Fin (of_int (ext_cnt c i) / of_int (2 * int_cnt c i + ext_cnt c i))"
proof -
  have "true_div (of_int (ext_cnt c i)) (of_int (2 * int_cnt c i + ext_cnt c i)) = Inr (cd ! i)"
    using collect_nth [OF assms(2) [unfolded conductance_eq [OF assms(1)]], of i] assms(3)
    by simp
  then show ?thesis by (auto simp: true_div_def split: if_splits)
qed

lemma normalized_cut_nth:
  assumes "wf_graph (graph c)" and "normalized_cut c = Inr nc" and "i < len_cover c"
  shows "\<exists>cd a b. conductance c = Inr cd \<and> cd ! i = Fin a
            \<and> second_term c i = Inr (Fin b) \<and> nc ! i = Fin (a + b)"
proof (cases "conductance c")
  case (Inl e)
  with assms(2) show ?thesis by (simp add: normalized_cut_def)
next
  case (Inr cd)
  have a: "cd ! i = Fin (of_int (ext_cnt c i) / of_int (2 * int_cnt c i + ext_cnt c i))"
    using assms(1) Inr assms(3) by (rule conductance_nth)
  have "collect (\<lambda>i. bind_err (second_term c i) (\<lambda>x. Inr (py_add (cd ! i) x)))
          [0..<len_cover c] = Inr nc"
    using assms(2) by (simp add: normalized_cut_eq [OF assms(1)] Inr)
  from collect_nth [OF this, of i] assms(3)
  have nc: "bind_err (second_term c i) (\<lambda>x. Inr (py_add (cd ! i) x)) = Inr (nc ! i)"
    by simp
  then obtain x where x: "second_term c i = Inr x" and sum: "nc ! i = py_add (cd ! i) x"
    by (cases "second_term c i") auto
  from x obtain b where b: "x = Fin b"
    by (auto simp: second_term_def true_div_def split: if_splits)
  from a b sum x Inr show ?thesis by simp
qed

text \<open>
  Claim C7. \<open>normalized_cut\<close> raises what \<open>conductance\<close> raises; otherwise its entry
  for cluster \<open>i\<close> is the entry of \<open>conductance\<close> plus
  \<open>ext(i) / (2 * (E - int(i)) + ext(i))\<close>, every entry being computed in turn and a zero
  divisor raising \<open>ZeroDivisionError\<close>. So whenever it returns, the two results differ
  in each entry exactly by the second term.
\<close>

theorem normalized_cut_is_conductance_plus_term:
  assumes "wf_graph (graph c)"
  shows "normalized_cut c =
       bind_err (conductance c) (\<lambda>cd.
         collect (\<lambda>i. bind_err (second_term c i) (\<lambda>x. Inr (py_add (cd ! i) x)))
           [0..<len_cover c])
     \<and> (\<forall>nc. normalized_cut c = Inr nc \<longrightarrow>
          (\<exists>cd. conductance c = Inr cd
             \<and> (\<forall>i < len_cover c. \<exists>a b. cd ! i = Fin a \<and> second_term c i = Inr (Fin b)
                    \<and> nc ! i = Fin (a + b))))"
proof (intro conjI allI impI)
  show "normalized_cut c =
       bind_err (conductance c) (\<lambda>cd.
         collect (\<lambda>i. bind_err (second_term c i) (\<lambda>x. Inr (py_add (cd ! i) x)))
           [0..<len_cover c])"
    using assms by (rule normalized_cut_eq)
next
  fix nc
  assume nc: "normalized_cut c = Inr nc"
  then obtain cd where cd: "conductance c = Inr cd"
    by (cases "conductance c") (simp_all add: normalized_cut_def)
  have "\<forall>i < len_cover c. \<exists>a b. cd ! i = Fin a \<and> second_term c i = Inr (Fin b)
                    \<and> nc ! i = Fin (a + b)"
    using normalized_cut_nth [OF assms nc] cd by auto
  with cd show "\<exists>cd. conductance c = Inr cd
             \<and> (\<forall>i < len_cover c. \<exists>a b. cd ! i = Fin a \<and> second_term c i = Inr (Fin b)
                    \<and> nc ! i = Fin (a + b))"
    by blast
qed

theorem normalized_cut_is_conductance_plus_term_witness:
  "wf_graph (graph triangle)
   \<and> conductance triangle = Inr [Fin (1 / 3), Fin (1 / 3)]
   \<and> second_term triangle 0 = Inr (Fin (1 / 5))
   \<and> second_term triangle 1 = Inr (Fin (1 / 5))
   \<and> normalized_cut triangle = Inr [Fin (1 / 3 + 1 / 5), Fin (1 / 3 + 1 / 5)]"
proof -
  have wf: "wf_graph (graph triangle)"
    by (simp add: triangle_def wf_graph_def)
  have cd: "conductance triangle = Inr [Fin (1 / 3), Fin (1 / 3)]"
    by code_simp
  have st: "second_term triangle 0 = Inr (Fin (1 / 5))" "second_term triangle 1 = Inr (Fin (1 / 5))"
    by code_simp+
  have st': "second_term triangle (Suc 0) = Inr (Fin (1 / 5))"
    using st(2) by simp
  have k: "[0..<len_cover triangle] = [0, Suc 0]"
    by (simp add: triangle_def len_cover_def upt_rec)
  from normalized_cut_is_conductance_plus_term [OF wf]
  have "normalized_cut triangle =
       bind_err (conductance triangle) (\<lambda>cd.
         collect (\<lambda>i. bind_err (second_term triangle i) (\<lambda>x. Inr (py_add (cd ! i) x)))
           [0..<len_cover triangle])"
    by blast
  then have "normalized_cut triangle = Inr [Fin (1 / 3 + 1 / 5), Fin (1 / 3 + 1 / 5)]"
    by (simp add: cd st st' k)
  with wf cd st show ?thesis by simp
qed

text \<open>
  Claim C3. For a cluster with \<open>int(i) = 0\<close> and \<open>ext(i) = 0\<close> the division of
  \<open>conductance\<close> has a zero divisor and is not guarded: on the single isolated vertex
  that is its own cluster (a scenario of the spec) the call raises
  \<open>ZeroDivisionError\<close> and returns no list, where the per-vertex ratios of the
  out-degree fractions are guarded and give not-a-number.
\<close>

theorem conductance_raises_on_isolated_vertex:
  "int_cnt isolated_vertex 0 = 0 \<and> ext_cnt isolated_vertex 0 = 0
   \<and> conductance isolated_vertex = Inl ZeroDivisionError"
  by code_simp

text \<open>
  Claim C4. For a cluster with \<open>ext(i) = 0\<close> the division of \<open>separability\<close> has a
  zero divisor and is not guarded: on two disjoint triangles with one cluster each (a
  scenario of the spec) the call raises \<open>ZeroDivisionError\<close> and returns no list.
\<close>

theorem separability_raises_on_separated_cluster:
  "int_cnt two_cliques 0 = 3 \<and> ext_cnt two_cliques 0 = 0
   \<and> separability two_cliques = Inl ZeroDivisionError"
  by code_simp

text \<open>
  Claim C5. The ratios are taken over all vertices of the graph and their maximum by the
  builtin \<open>max\<close>, which keeps a not-a-number first element: with vertex 0 isolated and
  a member of cluster 0, the ratios of cluster 0 are not-a-number, 1 and 0, and the
  result is not-a-number instead of 1.
\<close>

theorem maximum_odf_absorbs_nan:
  "odf_ratios (credits isolated_member 0 (boundary_edges isolated_member 0))
       (degree (graph isolated_member)) = [NaN, Fin 1, Fin 0]
   \<and> maximum_out_degree_fraction isolated_member = Inr [NaN, NaN]"
  by code_simp

subsection \<open>The cover with a single cluster of all vertices\<close>

lemma expansion_eq:
  assumes "wf_graph (graph c)"
  shows "expansion c =
     collect (\<lambda>i. true_div (of_nat (length (boundary_edges c i))) (of_nat (size_cl c i)))
       [0..<len_cover c]"
  unfolding expansion_def
  by (simp add: external_edges_eq [OF assms])
     (rule collect_cong, simp add: py_index_def)

lemma single_cluster_memb:
  "clusters c = [cl] \<Longrightarrow> v \<in> set cl \<Longrightarrow> 0 \<in> set (memb c v)"
  by (simp add: memb_iff)

lemma single_cluster_no_crossing:
  assumes "wf_graph (graph c)" and "clusters c = [cl]" and "set cl = {..<vcount (graph c)}"
  shows "filter (crossing_edge c) (es (graph c)) = []"
proof -
  have "\<not> crossing_edge c e" if "e \<in> set (es (graph c))" for e
  proof -
    from assms(1) that have "edge_ok c e" by (rule es_edge_ok)
    then have "source e \<in> set cl" "target e \<in> set cl"
      using assms(3) by (simp_all add: edge_ok_def)
    then have "0 \<in> set (memb c (source e))" "0 \<in> set (memb c (target e))"
      using assms(2) by (simp_all add: single_cluster_memb)
    then show ?thesis
      by (auto simp: crossing_edge_def)
  qed
  then show ?thesis by (simp add: filter_empty_conv)
qed

lemma single_cluster_boundary:
  assumes "wf_graph (graph c)" and "clusters c = [cl]" and "set cl = {..<vcount (graph c)}"
  shows "boundary_edges c i = []"
  by (simp add: boundary_edges_def single_cluster_no_crossing [OF assms])

lemma single_cluster_int:
  assumes "wf_graph (graph c)" and "clusters c = [cl]" and "set cl = {..<vcount (graph c)}"
  shows "int_cnt c 0 = int (ecount (graph c))"
proof -
  have "filter (\<lambda>(s, t). s \<in> set cl \<and> t \<in> set cl) (edgelist (graph c)) = edgelist (graph c)"
    using assms(1,3) by (auto simp: wf_graph_def list_all_iff filter_id_conv)
  then show ?thesis
    using assms(2) by (simp add: int_cnt_def subgraph_def ecount_def Let_def)
qed

text \<open>
  Claim C8, as amended. For a cover whose single cluster holds every vertex of the graph
  exactly once: the boundary-edge collection is empty; the expansion is 0 if the graph
  has a vertex; the divisor \<open>size(i) * (N - size(i))\<close> of the cut ratio is 0; the
  conductance is 0 if the graph has an edge; and the divisor \<open>ext(i)\<close> of the
  separability is 0.
\<close>

theorem single_cluster_cover:
  assumes "wf_graph (graph c)" and "clusters c = [cl]"
    and "distinct cl" and "set cl = {..<vcount (graph c)}"
  shows "external_edges c = Inr [[]]
     \<and> (0 < vcount (graph c) \<longrightarrow> expansion c = Inr [Fin 0])
     \<and> int (size_cl c 0) * (int (vcount (graph c)) - int (size_cl c 0)) = 0
     \<and> (0 < ecount (graph c) \<longrightarrow> conductance c = Inr [Fin 0])
     \<and> ext_cnt c 0 = 0"
proof -
  have k: "[0..<len_cover c] = [0]"
    using assms(2) by (simp add: len_cover_def)
  have b: "boundary_edges c i = []" for i
    using assms(1,2,4) by (rule single_cluster_boundary)
  have size: "size_cl c 0 = vcount (graph c)"
    using assms(2,3,4) distinct_card [of cl] by (simp add: size_cl_def)
  have int: "int_cnt c 0 = int (ecount (graph c))"
    using assms(1,2,4) by (rule single_cluster_int)
  have "external_edges c = Inr [[]]"
    by (simp add: external_edges_eq [OF assms(1)] k b)
  moreover have "expansion c = Inr [Fin 0]" if "0 < vcount (graph c)"
    using that by (simp add: expansion_eq [OF assms(1)] k b size true_div_def)
  moreover have "conductance c = Inr [Fin 0]" if "0 < ecount (graph c)"
    using that by (simp add: conductance_eq [OF assms(1)] k ext_cnt_def b int true_div_def)
  moreover have "ext_cnt c 0 = 0"
    by (simp add: ext_cnt_def b)
  ultimately show ?thesis by (simp add: size)
qed

theorem single_cluster_cover_witness:
  "wf_graph (graph whole_triangle) \<and> clusters whole_triangle = [[0, 1, 2]]
   \<and> distinct [0, 1, 2 :: nat] \<and> set [0, 1, 2] = {..<vcount (graph whole_triangle)}
   \<and> 0 < vcount (graph whole_triangle) \<and> 0 < ecount (graph whole_triangle)
   \<and> external_edges whole_triangle = Inr [[]]
   \<and> expansion whole_triangle = Inr [Fin 0]
   \<and> int (size_cl whole_triangle 0)
        * (int (vcount (graph whole_triangle)) - int (size_cl whole_triangle 0)) = 0
   \<and> conductance whole_triangle = Inr [Fin 0]
   \<and> ext_cnt whole_triangle 0 = 0"
proof -
  have wf: "wf_graph (graph whole_triangle)"
    by (simp add: whole_triangle_def wf_graph_def)
  have cl: "clusters whole_triangle = [[0, 1, 2]]"
    by (simp add: whole_triangle_def)
  have d: "distinct [0, 1, 2 :: nat]" by simp
  have s: "set [0, 1, 2] = {..<vcount (graph whole_triangle)}"
    by (auto simp: whole_triangle_def)
  have n: "0 < vcount (graph whole_triangle)" "0 < ecount (graph whole_triangle)"
    by (simp_all add: whole_triangle_def ecount_def)
  from single_cluster_cover [OF wf cl d s] n wf cl d s show ?thesis by simp
qed

text \<open>
  The claim as stated fails on a graph without edges: the divisor of the conductance is
  \<open>2 * 0 + 0\<close>, and the call raises instead of returning 0.
\<close>

theorem single_cluster_conductance_counterexample:
  "clusters edgeless_pair = [[0, 1]] \<and> set [0, 1] = {..<vcount (graph edgeless_pair)}
   \<and> conductance edgeless_pair = Inl ZeroDivisionError
   \<and> conductance edgeless_pair \<noteq> Inr [Fin 0]"
proof -
  have "set [0, 1] = {..<vcount (graph edgeless_pair)}"
    by (auto simp: edgeless_pair_def)
  moreover have "conductance edgeless_pair = Inl ZeroDivisionError"
    by code_simp
  ultimately show ?thesis by (simp add: edgeless_pair_def)
qed

subsection \<open>Recomputing the report\<close>

lemma bind_err_assoc:
  "bind_err (bind_err m f) g = bind_err m (\<lambda>x. bind_err (f x) g)"
  by (cases m) simp_all

lemma graph_compute_metrics_cached [simp]:
  "graph_compute_metrics gcm False g (Some m) = Inr m"
  by (simp add: graph_compute_metrics_def)

lemma graph_compute_metrics_fresh [simp]:
  "graph_compute_metrics gcm False g None = gcm g"
  by (simp add: graph_compute_metrics_def)

lemma graph_metrics_update_same:
  "graph_metrics obj = Some m \<Longrightarrow> obj\<lparr>graph_metrics := Some m\<rparr> = obj"
  by (cases obj) simp

lemma fomd_cached:
  "graph_metrics obj = Some m \<Longrightarrow>
   fomd gcm median obj = bind_err (fomd_list median (cover_of obj) m) (\<lambda>rv. Inr (rv, obj))"
  by (simp add: fomd_def fomd_list_def Let_def graph_metrics_update_same)

lemma compute_metrics_eq:
  "compute_metrics gcm median obj =
     bind_err (graph_compute_metrics gcm False (graph (cover_of obj)) (graph_metrics obj))
       (\<lambda>m. bind_err (report_of gcm median (cover_of obj) m)
          (\<lambda>r. Inr (obj\<lparr>graph_metrics := Some m, metrics := Some r\<rparr>)))"
  unfolding compute_metrics_def report_of_def
  by (simp add: fomd_cached bind_err_assoc Let_def)

text \<open>
  Claim C9. When \<open>compute_metrics\<close> returns, a second call on the object it leaves
  (same graph, same cover, the graph's report and the cover's report now cached) returns
  as well and leaves the object unchanged: every metric of every cluster has the value of
  the first run.
\<close>

theorem compute_metrics_idempotent:
  assumes "compute_metrics gcm median obj = Inr obj'"
  shows "cover_of obj' = cover_of obj \<and> (\<exists>r. metrics obj' = Some r)
     \<and> compute_metrics gcm median obj' = Inr obj'"
proof -
  from assms obtain m where
    m: "graph_compute_metrics gcm False (graph (cover_of obj)) (graph_metrics obj) = Inr m"
    by (cases "graph_compute_metrics gcm False (graph (cover_of obj)) (graph_metrics obj)")
       (simp_all add: compute_metrics_eq)
  with assms obtain r where
    r: "report_of gcm median (cover_of obj) m = Inr r"
    and obj': "obj' = obj\<lparr>graph_metrics := Some m, metrics := Some r\<rparr>"
    by (cases "report_of gcm median (cover_of obj) m") (auto simp: compute_metrics_eq)
  have "compute_metrics gcm median obj' = Inr obj'"
    by (simp add: compute_metrics_eq obj' r)
  with obj' show ?thesis by simp
qed

theorem compute_metrics_idempotent_witness:
  "compute_metrics median_degree id (fresh triangle) = Inr triangle_done
   \<and> cover_of triangle_done = cover_of (fresh triangle)
   \<and> compute_metrics median_degree id triangle_done = Inr triangle_done"
proof -
  have first: "compute_metrics median_degree id (fresh triangle) = Inr triangle_done"
    by code_simp
  from compute_metrics_idempotent [OF first] first show ?thesis by simp
qed


subsection \<open>The ranges of the out-degree fractions\<close>

lemma filter_concat_replicate:
  "filter P (concat (map (\<lambda>x. replicate (m x) x) xs))
     = concat (map (\<lambda>x. replicate (m x) x) (filter P xs))"
  by (induction xs) auto

lemma length_filter_le_two:
  "(\<And>x. x \<in> set xs \<Longrightarrow> P x \<Longrightarrow> Q x \<or> R x) \<Longrightarrow>
   length (filter P xs) \<le> length (filter Q xs) + length (filter R xs)"
proof (induction xs)
  case Nil
  show ?case by simp
next
  case (Cons x xs)
  have IH: "length (filter P xs) \<le> length (filter Q xs) + length (filter R xs)"
    by (rule Cons.IH) (simp add: Cons.prems)
  have "P x \<Longrightarrow> Q x \<or> R x" by (rule Cons.prems) simp_all
  with IH show ?case by auto
qed

lemma endpoints_es: "map (\<lambda>e. (source e, target e)) (es g) = edgelist g"
  by (rule nth_equalityI) (simp_all add: es_def case_prod_beta)

lemma degree_nth:
  assumes "v < vcount g"
  shows "degree g ! v = length (filter (\<lambda>e. source e = v) (es g))
                      + length (filter (\<lambda>e. target e = v) (es g))"
proof -
  have "length (filter (\<lambda>(s, t). s = v) (edgelist g))
      = length (filter (\<lambda>(s, t). s = v) (map (\<lambda>e. (source e, target e)) (es g)))"
    by (simp only: endpoints_es)
  also have "\<dots> = length (filter (\<lambda>e. source e = v) (es g))"
    by (simp add: filter_map comp_def)
  finally have s: "length (filter (\<lambda>(s, t). s = v) (edgelist g))
      = length (filter (\<lambda>e. source e = v) (es g))" .
  have "length (filter (\<lambda>(s, t). t = v) (edgelist g))
      = length (filter (\<lambda>(s, t). t = v) (map (\<lambda>e. (source e, target e)) (es g)))"
    by (simp only: endpoints_es)
  also have "\<dots> = length (filter (\<lambda>e. target e = v) (es g))"
    by (simp add: filter_map comp_def)
  finally have t: "length (filter (\<lambda>(s, t). t = v) (edgelist g))
      = length (filter (\<lambda>e. target e = v) (es g))" .
  from assms s t show ?thesis by (simp add: degree_def)
qed

lemma cnt_le_degree:
  assumes "clusters_are_sets c" and "v < vcount (graph c)"
  shows "cnt c i v \<le> degree (graph c) ! v"
proof -
  let ?X = "filter (crossing_edge c) (es (graph c))"
  let ?Y = "filter (\<lambda>e. credited c i e = v) ?X"
  have "cnt c i v = length (concat (map (\<lambda>e. replicate (mult c i e) e) ?Y))"
    by (simp add: cnt_def boundary_edges_replicate filter_concat_replicate)
  also have "\<dots> \<le> 1 * length ?Y"
    by (rule length_concat_replicate_le_on)
       (simp add: mult_le_one [OF assms(1)] del: One_nat_def)
  also have "length ?Y \<le> length (filter (\<lambda>e. source e = v) (es (graph c)))
                         + length (filter (\<lambda>e. target e = v) (es (graph c)))"
    unfolding filter_filter
    by (rule length_filter_le_two) (auto simp: credited_def split: if_splits)
  also have "\<dots> = degree (graph c) ! v"
    using assms(2) by (simp add: degree_nth)
  finally show ?thesis by simp
qed

lemma cnt_outside: "v \<notin> set (clusters c ! i) \<Longrightarrow> cnt c i v = 0"
proof -
  assume out: "v \<notin> set (clusters c ! i)"
  have "filter (\<lambda>e. credited c i e = v) (boundary_edges c i) = []"
  proof (rule ccontr)
    assume "filter (\<lambda>e. credited c i e = v) (boundary_edges c i) \<noteq> []"
    then obtain e where "e \<in> set (boundary_edges c i)" and "credited c i e = v"
      by (auto simp: filter_empty_conv)
    then have "i \<in> set (memb c v)" using credited_member by blast
    with out show False by (simp add: memb_iff)
  qed
  then show ?thesis by (simp add: cnt_def)
qed

lemma credits_nth:
  "v < vcount (graph c) \<Longrightarrow> credits c i (boundary_edges c i) ! v = of_nat (cnt c i v)"
  by (simp add: credits_def cnt_def)

lemma zip_as_map:
  "length xs = n \<Longrightarrow> length ys = n \<Longrightarrow> zip xs ys = map (\<lambda>v. (xs ! v, ys ! v)) [0..<n]"
  by (rule nth_equalityI) simp_all

lemma length_degree: "length (degree g) = vcount g"
  by (simp add: degree_def)

lemma length_credits: "length (credits c i edges) = vcount (graph c)"
  by (simp add: credits_def)

lemma odf_ratios_credits:
  "odf_ratios (credits c i (boundary_edges c i)) (degree (graph c))
     = map (\<lambda>v. if degree (graph c) ! v \<noteq> 0
                 then Fin (of_nat (cnt c i v) / of_nat (degree (graph c) ! v)) else NaN)
           [0..<vcount (graph c)]"
  unfolding odf_ratios_def
  by (subst zip_as_map [where n = "vcount (graph c)"])
     (simp_all add: length_credits length_degree credits_nth)

lemma flake_flags_credits:
  "flake_flags (credits c i (boundary_edges c i)) (degree (graph c))
     = map (\<lambda>v. of_nat (cnt c i v) > (of_nat (degree (graph c) ! v) :: rat) / 2)
           [0..<vcount (graph c)]"
  unfolding flake_flags_def
  by (subst zip_as_map [where n = "vcount (graph c)"])
     (simp_all add: length_credits length_degree credits_nth)

lemma foldl_py_add_Fin:
  "foldl py_add (Fin a)
      (map (\<lambda>x. if x = NaN then Fin 0 else x) (map (\<lambda>v. if P v then Fin (q v) else NaN) xs))
     = Fin (a + sum_list (map (\<lambda>v. if P v then q v else 0) xs))"
  by (induction xs arbitrary: a) (simp_all add: add.assoc)

lemma nansum_ratios:
  "nansum (map (\<lambda>v. if P v then Fin (q v) else NaN) xs)
     = Fin (sum_list (map (\<lambda>v. if P v then q v else 0) xs))"
  unfolding nansum_def by (simp only: foldl_py_add_Fin add_0)

lemma sum_list_indicator:
  "sum_list (map (\<lambda>v. if P v then k else 0) xs) = k * of_nat (length (filter P xs))"
  for k :: rat
  by (induction xs) (simp_all add: algebra_simps)

lemma members_le_size:
  "length (filter (\<lambda>v. v \<in> set (clusters c ! i)) [0..<n]) \<le> vcount (subgraph c i)"
proof -
  let ?cl = "clusters c ! i"
  have "distinct (filter (\<lambda>v. v \<in> set ?cl) [0..<n])" by simp
  then have "card (set (filter (\<lambda>v. v \<in> set ?cl) [0..<n]))
      = length (filter (\<lambda>v. v \<in> set ?cl) [0..<n])"
    by (rule distinct_card)
  then have "length (filter (\<lambda>v. v \<in> set ?cl) [0..<n])
      = card (set (filter (\<lambda>v. v \<in> set ?cl) [0..<n]))"
    by (rule sym)
  also have "\<dots> \<le> card (set ?cl)"
    by (rule card_mono) auto
  also have "card (set ?cl) = vcount (subgraph c i)"
    by (simp add: subgraph_def Let_def length_remdups_card_conv)
  finally show ?thesis .
qed

lemma subgraph_nonempty: "clusters c ! i \<noteq> [] \<Longrightarrow> 0 < vcount (subgraph c i)"
  by (simp add: subgraph_def Let_def)

lemma ratio_bounds:
  assumes "clusters_are_sets c" and "v < vcount (graph c)"
  shows "0 \<le> ratio c i v"
    and "ratio c i v \<le> (if v \<in> set (clusters c ! i) then 1 else 0)"
proof -
  show "0 \<le> ratio c i v" by (simp add: ratio_def)
  show "ratio c i v \<le> (if v \<in> set (clusters c ! i) then 1 else 0)"
  proof (cases "v \<in> set (clusters c ! i)")
    case False
    then show ?thesis by (simp add: ratio_def cnt_outside)
  next
    case True
    have "(of_nat (cnt c i v) :: rat) \<le> of_nat (degree (graph c) ! v)"
      using cnt_le_degree [OF assms, of i] by (simp only: of_nat_le_iff)
    then have "degree (graph c) ! v \<noteq> 0 \<Longrightarrow>
        (of_nat (cnt c i v) :: rat) / of_nat (degree (graph c) ! v) \<le> 1"
      by (simp add: divide_le_eq)
    with True show ?thesis by (simp add: ratio_def)
  qed
qed

lemma sum_ratio_bounds:
  assumes "clusters_are_sets c"
  shows "0 \<le> sum_list (map (ratio c i) [0..<vcount (graph c)])"
    and "sum_list (map (ratio c i) [0..<vcount (graph c)]) \<le> of_nat (vcount (subgraph c i))"
proof -
  show "0 \<le> sum_list (map (ratio c i) [0..<vcount (graph c)])"
    by (rule sum_list_nonneg) (auto simp: ratio_bounds(1) [OF assms])
  have "sum_list (map (ratio c i) [0..<vcount (graph c)])
      \<le> sum_list (map (\<lambda>v. if v \<in> set (clusters c ! i) then 1 else 0)
                     [0..<vcount (graph c)])"
    by (rule sum_list_mono) (simp add: ratio_bounds(2) [OF assms])
  also have "\<dots> = 1
      * of_nat (length (filter (\<lambda>v. v \<in> set (clusters c ! i)) [0..<vcount (graph c)]))"
    by (rule sum_list_indicator)
  also have "\<dots> \<le> of_nat (vcount (subgraph c i))"
    by (simp add: members_le_size)
  finally show "sum_list (map (ratio c i) [0..<vcount (graph c)])
     \<le> of_nat (vcount (subgraph c i))" .
qed

lemma average_eq:
  assumes "wf_graph (graph c)"
  shows "average_out_degree_fraction c = Inr (map (avg_odf c) [0..<len_cover c])"
proof -
  have "average_out_degree_fraction c
      = collect (\<lambda>i. Inr (np_div (nansum (odf_ratios (credits c i (boundary_edges c i))
                                      (degree (graph c))))
                    (vcount (subgraph c i)))) [0..<len_cover c]"
    unfolding average_out_degree_fraction_def
    by (simp add: external_edges_eq [OF assms])
       (rule collect_cong,
        simp add: py_index_def ext_edge_per_node_eq boundary_edges_ok [OF assms])
  also have "\<dots> = Inr (map (avg_odf c) [0..<len_cover c])"
    by (rule collect_map)
       (simp add: odf_ratios_credits nansum_ratios avg_odf_def ratio_def [abs_def])
  finally show ?thesis .
qed

lemma avg_odf_bounds:
  assumes "clusters_are_sets c" and "clusters c ! i \<noteq> []"
  shows "\<exists>a. avg_odf c i = Fin a \<and> 0 \<le> a \<and> a \<le> 1"
proof -
  let ?s = "sum_list (map (ratio c i) [0..<vcount (graph c)])"
  let ?n = "vcount (subgraph c i)"
  have n: "0 < ?n" using assms(2) by (rule subgraph_nonempty)
  then have "avg_odf c i = Fin (?s / of_nat ?n)"
    by (simp add: avg_odf_def)
  moreover have "0 \<le> ?s / of_nat ?n"
    using sum_ratio_bounds(1) [OF assms(1), of i] by simp
  moreover have "?s / of_nat ?n \<le> 1"
    using sum_ratio_bounds(2) [OF assms(1), of i] n by (simp add: divide_le_eq)
  ultimately show ?thesis by blast
qed

lemma flake_eq:
  assumes "wf_graph (graph c)"
  shows "flake_out_degree_fraction c
     = collect (\<lambda>i. true_div (of_nat (flake_cnt c i)) (of_nat (vcount (subgraph c i))))
         [0..<len_cover c]"
  unfolding flake_out_degree_fraction_def
  by (simp add: external_edges_eq [OF assms])
     (rule collect_cong,
      simp add: py_index_def ext_edge_per_node_eq boundary_edges_ok [OF assms]
        flake_flags_credits flake_cnt_def filter_map comp_def)

lemma flake_cnt_le: "flake_cnt c i \<le> vcount (subgraph c i)"
proof -
  have "flake_cnt c i \<le> length (filter (\<lambda>v. v \<in> set (clusters c ! i)) [0..<vcount (graph c)])"
    unfolding flake_cnt_def
  proof (rule length_filter_le_two [where R = "\<lambda>_. False", simplified])
    fix v
    assume "of_nat (degree (graph c) ! v) / 2 < (of_nat (cnt c i v) :: rat)"
    then have "cnt c i v \<noteq> 0"
      by (cases "cnt c i v = 0") (simp_all add: not_less)
    then show "v \<in> set (clusters c ! i)"
      by (rule contrapos_np) (rule cnt_outside)
  qed
  also have "\<dots> \<le> vcount (subgraph c i)" by (rule members_le_size)
  finally show ?thesis .
qed

lemma flake_all_nonempty:
  assumes "wf_graph (graph c)" and "\<forall>i < len_cover c. clusters c ! i \<noteq> []"
  shows "flake_out_degree_fraction c = Inr (map (flake_odf c) [0..<len_cover c])"
  unfolding flake_eq [OF assms(1)]
proof (rule collect_map)
  fix i
  assume "i \<in> set [0..<len_cover c]"
  then have "clusters c ! i \<noteq> []" using assms(2) by simp
  then have "0 < vcount (subgraph c i)" by (rule subgraph_nonempty)
  then show "true_div (of_nat (flake_cnt c i)) (of_nat (vcount (subgraph c i)))
      = Inr (flake_odf c i)"
    by (simp add: true_div_def flake_odf_def)
qed

lemma flake_odf_bounds:
  assumes "clusters c ! i \<noteq> []"
  shows "\<exists>f. flake_odf c i = Fin f \<and> 0 \<le> f \<and> f \<le> 1"
proof -
  let ?n = "vcount (subgraph c i)"
  have n: "0 < ?n" using assms by (rule subgraph_nonempty)
  have "(0::rat) \<le> of_nat (flake_cnt c i) / of_nat ?n" by simp
  moreover have "(of_nat (flake_cnt c i) :: rat) / of_nat ?n \<le> 1"
    using n flake_cnt_le [of c i] by (simp add: divide_le_eq)
  ultimately show ?thesis by (simp add: flake_odf_def)
qed

text \<open>
  Claim C6, as amended. For a cover whose clusters are sets of vertices,
  \<open>average_out_degree_fraction\<close> returns a list, and its entry for a non-empty
  cluster (so for every cluster with a vertex of non-zero degree) is a number in
  \<open>[0, 1]\<close>. If no cluster of the cover is empty, \<open>flake_out_degree_fraction\<close>
  returns a list and every entry is a number in \<open>[0, 1]\<close>.
\<close>

theorem odf_in_unit_interval:
  assumes "wf_graph (graph c)" and "clusters_are_sets c"
  shows "(\<exists>av. average_out_degree_fraction c = Inr av \<and> length av = len_cover c
            \<and> (\<forall>i < len_cover c. clusters c ! i \<noteq> [] \<longrightarrow>
                  (\<exists>a. av ! i = Fin a \<and> 0 \<le> a \<and> a \<le> 1)))
       \<and> ((\<forall>i < len_cover c. clusters c ! i \<noteq> []) \<longrightarrow>
            (\<exists>fl. flake_out_degree_fraction c = Inr fl \<and> length fl = len_cover c
               \<and> (\<forall>i < len_cover c. \<exists>f. fl ! i = Fin f \<and> 0 \<le> f \<and> f \<le> 1)))"
proof (intro conjI impI)
  let ?av = "map (avg_odf c) [0..<len_cover c]"
  have "average_out_degree_fraction c = Inr ?av"
    using assms(1) by (rule average_eq)
  moreover have "length ?av = len_cover c" by simp
  moreover have "\<forall>i < len_cover c. clusters c ! i \<noteq> [] \<longrightarrow>
                  (\<exists>a. ?av ! i = Fin a \<and> 0 \<le> a \<and> a \<le> 1)"
    using avg_odf_bounds [OF assms(2)] by simp
  ultimately show "\<exists>av. average_out_degree_fraction c = Inr av \<and> length av = len_cover c
            \<and> (\<forall>i < len_cover c. clusters c ! i \<noteq> [] \<longrightarrow>
                  (\<exists>a. av ! i = Fin a \<and> 0 \<le> a \<and> a \<le> 1))"
    by blast
next
  assume ne: "\<forall>i < len_cover c. clusters c ! i \<noteq> []"
  let ?fl = "map (flake_odf c) [0..<len_cover c]"
  have "flake_out_degree_fraction c = Inr ?fl"
    using assms(1) ne by (rule flake_all_nonempty)
  moreover have "length ?fl = len_cover c" by simp
  moreover have "\<forall>i < len_cover c. \<exists>f. ?fl ! i = Fin f \<and> 0 \<le> f \<and> f \<le> 1"
    using ne flake_odf_bounds by simp
  ultimately show "\<exists>fl. flake_out_degree_fraction c = Inr fl \<and> length fl = len_cover c
               \<and> (\<forall>i < len_cover c. \<exists>f. fl ! i = Fin f \<and> 0 \<le> f \<and> f \<le> 1)"
    by blast
qed

theorem odf_in_unit_interval_witness:
  "wf_graph (graph isolated_member) \<and> clusters_are_sets isolated_member
   \<and> 0 < len_cover isolated_member
   \<and> clusters isolated_member ! 0 \<noteq> [] \<and> clusters isolated_member ! 1 \<noteq> []
   \<and> (\<exists>av a. average_out_degree_fraction isolated_member = Inr av \<and> av ! 0 = Fin a
         \<and> a = 1 / 2 \<and> 0 \<le> a \<and> a \<le> 1)
   \<and> (\<exists>fl f. flake_out_degree_fraction isolated_member = Inr fl \<and> fl ! 0 = Fin f
         \<and> f = 1 / 2 \<and> 0 \<le> f \<and> f \<le> 1)"
proof -
  have wf: "wf_graph (graph isolated_member)"
    by (simp add: isolated_member_def wf_graph_def)
  have sets: "clusters_are_sets isolated_member"
    by (simp add: isolated_member_def clusters_are_sets_def)
  have k: "len_cover isolated_member = 2"
    by (simp add: isolated_member_def len_cover_def)
  have i: "0 < len_cover isolated_member" by (simp add: k)
  have ne: "clusters isolated_member ! 0 \<noteq> []" "clusters isolated_member ! 1 \<noteq> []"
    by (simp_all add: isolated_member_def)
  have all_ne: "\<forall>i < len_cover isolated_member. clusters isolated_member ! i \<noteq> []"
    using ne by (simp add: k less_Suc_eq numeral_2_eq_2)
  have ev_av: "average_out_degree_fraction isolated_member = Inr [Fin (1 / 2), Fin 1]"
    by code_simp
  have ev_fl: "flake_out_degree_fraction isolated_member = Inr [Fin (1 / 2), Fin 1]"
    by code_simp
  from odf_in_unit_interval [OF wf sets] obtain av where
    av: "average_out_degree_fraction isolated_member = Inr av"
    and av_range: "\<forall>i < len_cover isolated_member. clusters isolated_member ! i \<noteq> [] \<longrightarrow>
        (\<exists>a. av ! i = Fin a \<and> 0 \<le> a \<and> a \<le> 1)"
    by blast
  from odf_in_unit_interval [OF wf sets] all_ne obtain fl where
    fl: "flake_out_degree_fraction isolated_member = Inr fl"
    and fl_range: "\<forall>i < len_cover isolated_member. \<exists>f. fl ! i = Fin f \<and> 0 \<le> f \<and> f \<le> 1"
    by blast
  from av_range [rule_format, OF i ne(1)] obtain a where
    a: "av ! 0 = Fin a" "0 \<le> a" "a \<le> 1"
    by blast
  from av ev_av a(1) have a_val: "a = 1 / 2" by auto
  from fl_range [rule_format, OF i] obtain f where f: "fl ! 0 = Fin f" "0 \<le> f" "f \<le> 1"
    by blast
  from fl ev_fl f(1) have f_val: "f = 1 / 2" by auto
  from wf sets i ne av a a_val fl f f_val show ?thesis by auto
qed

text \<open>
  The claim as stated fails for \<open>flake_out_degree_fraction\<close>, which is not
  unconditional: for an empty cluster the subgraph has no vertex, the division by its
  vertex count has the divisor 0, and the call raises instead of returning a list.
\<close>

theorem flake_on_empty_cluster_counterexample:
  "clusters empty_cluster = [[]]
   \<and> vcount (subgraph empty_cluster 0) = 0
   \<and> flake_out_degree_fraction empty_cluster = Inl ZeroDivisionError"
  by code_simp

end
